theory Spec2Isabelle
  imports Complex_Main
begin

section \<open>Python values, exceptions and the outside world\<close>

text \<open>
  The tools of \<^verbatim>\<open>bitbucket_server.py\<close> handle three kinds of Python values: what
  \<^verbatim>\<open>response.json()\<close> returns, the dict literals they build (result envelopes,
  tree nodes, request headers and parameters) and \<^verbatim>\<open>None\<close>. All of them are values
  of \<open>pyval\<close>. A dict is the list of its items in insertion order; lookup takes the
  first item of a key.
\<close>

datatype pyval =
    PNone
  | PBool bool
  | PInt int
  | PFloat real
  | PStr string
  | PList "pyval list"
  | PDict "(string \<times> pyval) list"

text \<open>
  The exceptions the code can meet. All of them are subclasses of Python's
  \<^verbatim>\<open>Exception\<close>, which is what every handler of the file catches.
\<close>

datatype exn =
    RequestException string
  | JSONDecodeError string
  | AttributeError pyval string
  | TypeError pyval
  | KeyError string
  | OSError string
  | RecursionError

text \<open>A call \<^verbatim>\<open>requests.get(url, headers=..., params=...)\<close>.\<close>

record request =
  url :: pyval
  headers :: pyval
  params :: pyval

text \<open>
  What \<^verbatim>\<open>requests.get\<close> does: it raises, or it returns a response object with
  \<^verbatim>\<open>status_code\<close>, \<^verbatim>\<open>text\<close> and the outcome of \<^verbatim>\<open>json()\<close>
  (which raises when the body is not JSON).
\<close>

datatype response =
    Raises exn
  | Response int string "exn + pyval"

text \<open>
  Everything the module takes from outside its own text: the two configuration values read
  from the process environment, what the interpreter prints for a value or an exception,
  the remote service (a state
  machine over a state of type \<open>'w\<close>: the answer to a request may depend on everything
  that happened before), the interpreter's recursion limit, the file system and the clock.
\<close>

record 'w env =
  BITBUCKET_TOKEN :: string
  BITBUCKET_EMAIL :: string
  py_format :: "pyval \<Rightarrow> string"
  exn_str :: "exn \<Rightarrow> string"
  remote :: "'w \<Rightarrow> request \<Rightarrow> response \<times> 'w"
  recursion_limit :: nat
  write_json :: "'w \<Rightarrow> string \<Rightarrow> pyval \<Rightarrow> exn option \<times> 'w"
  now_isoformat :: "'w \<Rightarrow> string"

text \<open>
  The world is the state of the outside together with the list of the requests issued so
  far, oldest first.
\<close>

type_synonym 'w world = "'w \<times> request list"

definition requests_get :: "'w env \<Rightarrow> request \<Rightarrow> 'w world \<Rightarrow> response \<times> 'w world" where
  "requests_get env req W =
     (case W of (w, issued) \<Rightarrow>
        (case remote env w req of (resp, w') \<Rightarrow> (resp, (w', issued @ [req]))))"

subsection \<open>Python primitives\<close>

text \<open>Truth value of an object, as \<^verbatim>\<open>if x:\<close>, \<^verbatim>\<open>not x\<close> and \<^verbatim>\<open>while x:\<close> take it.\<close>

fun truthy :: "pyval \<Rightarrow> bool" where
  "truthy PNone = False"
| "truthy (PBool b) = b"
| "truthy (PInt i) = (i \<noteq> 0)"
| "truthy (PFloat r) = (r \<noteq> 0)"
| "truthy (PStr s) = (s \<noteq> [])"
| "truthy (PList xs) = (xs \<noteq> [])"
| "truthy (PDict kvs) = (kvs \<noteq> [])"

text \<open>\<^verbatim>\<open>obj.get(key, default)\<close>: only a dict has the method.\<close>

fun py_get :: "pyval \<Rightarrow> string \<Rightarrow> pyval \<Rightarrow> exn + pyval" where
  "py_get (PDict kvs) k dflt = Inr (case map_of kvs k of None \<Rightarrow> dflt | Some v \<Rightarrow> v)"
| "py_get v k dflt = Inl (AttributeError v ''get'')"

text \<open>
  Iteration (\<^verbatim>\<open>for item in v\<close>, \<^verbatim>\<open>list.extend(v)\<close>): a list gives its elements,
  a string its characters, a dict its keys; nothing else is iterable.
\<close>

fun py_iter :: "pyval \<Rightarrow> exn + pyval list" where
  "py_iter (PList xs) = Inr xs"
| "py_iter (PStr s) = Inr (map (\<lambda>c. PStr [c]) s)"
| "py_iter (PDict kvs) = Inr (map (\<lambda>kv. PStr (fst kv)) kvs)"
| "py_iter v = Inl (TypeError v)"

text \<open>\<^verbatim>\<open>len(v)\<close>.\<close>

fun py_len :: "pyval \<Rightarrow> exn + int" where
  "py_len (PList xs) = Inr (int (length xs))"
| "py_len (PStr s) = Inr (int (length s))"
| "py_len (PDict kvs) = Inr (int (length kvs))"
| "py_len v = Inl (TypeError v)"

definition endswith :: "string \<Rightarrow> string \<Rightarrow> bool" where
  "endswith s suf \<longleftrightarrow> length suf \<le> length s \<and> drop (length s - length suf) s = suf"

text \<open>\<^verbatim>\<open>v.endswith((suf1, suf2, ...))\<close>: a method of strings only.\<close>

fun py_endswith :: "pyval \<Rightarrow> string list \<Rightarrow> exn + bool" where
  "py_endswith (PStr s) sufs = Inr (list_ex (endswith s) sufs)"
| "py_endswith v sufs = Inl (AttributeError v ''endswith'')"

text \<open>\<^verbatim>\<open>v.lower()\<close> on the letters A to Z; a method of strings only.\<close>

definition lower_char :: "char \<Rightarrow> char" where
  "lower_char c =
     (let n = (of_char c :: nat) in if 65 \<le> n \<and> n \<le> 90 then char_of (n + 32) else c)"

fun py_lower :: "pyval \<Rightarrow> exn + pyval" where
  "py_lower (PStr s) = Inr (PStr (map lower_char s))"
| "py_lower v = Inl (AttributeError v ''lower'')"

text \<open>Decimal digits of an integer, as \<^verbatim>\<open>str(n)\<close> prints them.\<close>

fun str_nat :: "nat \<Rightarrow> string" where
  "str_nat n =
     (if n < 10 then [char_of (48 + n)] else str_nat (n div 10) @ [char_of (48 + n mod 10)])"

declare str_nat.simps [simp del]

definition str_int :: "int \<Rightarrow> string" where
  "str_int i = (if i < 0 then CHR ''-'' # str_nat (nat (- i)) else str_nat (nat i))"

text \<open>
  A value inside an f-string. Strings, integers, booleans and \<^verbatim>\<open>None\<close> are printed
  here; floats, lists and dicts by the interpreter's \<^verbatim>\<open>format\<close>.
\<close>

definition fstr :: "'w env \<Rightarrow> pyval \<Rightarrow> string" where
  "fstr env v =
     (case v of
        PStr s \<Rightarrow> s
      | PInt i \<Rightarrow> str_int i
      | PNone \<Rightarrow> ''None''
      | PBool b \<Rightarrow> (if b then ''True'' else ''False'')
      | _ \<Rightarrow> py_format env v)"

section \<open>The module\<close>

text \<open>The only global the tools share: \<^verbatim>\<open>auth_headers = None\<close> at start.\<close>

record globals =
  auth_headers :: pyval

definition initial_globals :: globals where
  "initial_globals = \<lparr>auth_headers = PNone\<rparr>"

text \<open>
  \<^verbatim>\<open>base64.b64encode(credentials.encode()).decode()\<close>. A string is the list of the
  bytes of its UTF-8 encoding; three bytes give four digits, and \<^verbatim>\<open>=\<close> pads the last
  group.
\<close>

definition b64_alphabet :: string where
  "b64_alphabet = ''ABCDEFGHIJKLMNOPQRSTUVWXYZabcdefghijklmnopqrstuvwxyz0123456789+/''"

definition b64_digit :: "nat \<Rightarrow> char" where
  "b64_digit n = b64_alphabet ! n"

fun b64_bytes :: "nat list \<Rightarrow> string" where
  "b64_bytes (a # b # c # rest) =
     [b64_digit (a div 4), b64_digit ((a mod 4) * 16 + b div 16),
      b64_digit ((b mod 16) * 4 + c div 64), b64_digit (c mod 64)] @ b64_bytes rest"
| "b64_bytes [a, b] =
     [b64_digit (a div 4), b64_digit ((a mod 4) * 16 + b div 16), b64_digit ((b mod 16) * 4),
      CHR ''='']"
| "b64_bytes [a] = [b64_digit (a div 4), b64_digit ((a mod 4) * 16), CHR ''='', CHR ''='']"
| "b64_bytes [] = []"

definition b64encode :: "string \<Rightarrow> string" where
  "b64encode s = b64_bytes (map of_char s)"

definition get_headers_with_email :: "'w env \<Rightarrow> pyval \<Rightarrow> pyval" where
  "get_headers_with_email env email =
     PDict [(''Authorization'',
             PStr (''Basic '' @ b64encode (fstr env email @ '':'' @ BITBUCKET_TOKEN env)))]"

subsection \<open>get_repository_codebase\<close>

definition base_url_of :: "string \<Rightarrow> string \<Rightarrow> string" where
  "base_url_of workspace repo_slug =
     ''https://api.bitbucket.org/2.0/repositories/'' @ workspace @ ''/'' @ repo_slug"

definition src_request :: "'w env \<Rightarrow> string \<Rightarrow> string \<Rightarrow> pyval \<Rightarrow> pyval \<Rightarrow> request" where
  "src_request env base_url branch hdrs p =
     \<lparr>url = PStr (base_url @ ''/src/'' @ branch @ ''/'' @ fstr env p),
      headers = hdrs, params = PNone\<rparr>"

text \<open>The nested function \<^verbatim>\<open>get_file_contents\<close>; it returns a string whatever happens.\<close>

definition get_file_contents ::
  "'w env \<Rightarrow> string \<Rightarrow> string \<Rightarrow> pyval \<Rightarrow> pyval \<Rightarrow> 'w world \<Rightarrow> string \<times> 'w world" where
  "get_file_contents env base_url branch hdrs file_path W =
     (case requests_get env (src_request env base_url branch hdrs file_path) W of
        (Raises e, W1) \<Rightarrow>
          (''Error: Exception while fetching '' @ fstr env file_path @ '': '' @ exn_str env e, W1)
      | (Response status txt js, W1) \<Rightarrow>
          (if status = 200 then txt
           else ''Error: Could not fetch file '' @ fstr env file_path @ '' (Status: ''
                  @ str_int status @ '')'',
           W1))"

definition content_extensions :: "string list" where
  "content_extensions =
     [''.py'', ''.js'', ''.ts'', ''.java'', ''.cpp'', ''.c'', ''.h'', ''.html'', ''.css'',
      ''.json'', ''.xml'', ''.md'', ''.txt'', ''.yml'', ''.yaml'', ''.sh'', ''.bat'', ''.ps1'']"

definition file_info :: "pyval \<Rightarrow> pyval \<Rightarrow> pyval \<Rightarrow> pyval" where
  "file_info item_path sz content =
     PDict [(''type'', PStr ''file''), (''path'', item_path), (''size'', sz),
            (''content'', content)]"

definition directory_info :: "pyval \<Rightarrow> pyval list \<Rightarrow> pyval" where
  "directory_info dir_path children =
     PDict [(''type'', PStr ''directory''), (''path'', dir_path), (''children'', PList children)]"

text \<open>
  The body of the loop \<^verbatim>\<open>for item in data.get('values', [])\<close> of
  \<^verbatim>\<open>get_directory_structure\<close>: \<open>recurse\<close> is the recursive call, \<open>children\<close> the
  list \<^verbatim>\<open>structure['children']\<close> so far. \<open>Inl\<close> is an exception leaving the loop.
\<close>

definition structure_item ::
  "'w env \<Rightarrow> (pyval \<Rightarrow> 'w world \<Rightarrow> pyval \<times> 'w world) \<Rightarrow> string \<Rightarrow> string \<Rightarrow> pyval \<Rightarrow>
   pyval \<Rightarrow> pyval list \<Rightarrow> 'w world \<Rightarrow> (exn + pyval list) \<times> 'w world" where
  "structure_item env recurse base_url branch hdrs item children W =
     (case py_get item ''type'' (PStr ''unknown'') of
        Inl e \<Rightarrow> (Inl e, W)
      | Inr item_type \<Rightarrow>
     (case py_get item ''path'' (PStr []) of
        Inl e \<Rightarrow> (Inl e, W)
      | Inr item_path \<Rightarrow>
          if item_type = PStr ''commit_file'' then
            (case py_get item ''size'' (PInt 0) of
               Inl e \<Rightarrow> (Inl e, W)
             | Inr sz \<Rightarrow>
            (case py_endswith item_path content_extensions of
               Inl e \<Rightarrow> (Inl e, W)
             | Inr True \<Rightarrow>
                 (case get_file_contents env base_url branch hdrs item_path W of
                    (content, W1) \<Rightarrow>
                      (Inr (children @ [file_info item_path sz (PStr content)]), W1))
             | Inr False \<Rightarrow> (Inr (children @ [file_info item_path sz PNone]), W)))
          else if item_type = PStr ''commit_directory'' then
            (case recurse item_path W of
               (sub_structure, W1) \<Rightarrow>
                 if truthy sub_structure then (Inr (children @ [sub_structure]), W1)
                 else (Inr children, W1))
          else (Inr children, W)))"

text \<open>A \<^verbatim>\<open>for\<close> loop over a list, left by the first exception of its body.\<close>

fun for_items ::
  "(pyval \<Rightarrow> 'a \<Rightarrow> 's \<Rightarrow> (exn + 'a) \<times> 's) \<Rightarrow> pyval list \<Rightarrow> 'a \<Rightarrow> 's \<Rightarrow> (exn + 'a) \<times> 's" where
  "for_items body [] acc W = (Inr acc, W)"
| "for_items body (item # items) acc W =
     (case body item acc W of
        (Inl e, W1) \<Rightarrow> (Inl e, W1)
      | (Inr acc', W1) \<Rightarrow> for_items body items acc' W1)"

text \<open>
  The nested function \<^verbatim>\<open>get_directory_structure\<close>. Its first argument is the number of
  nested calls the interpreter still allows: beyond it a call raises
  \<^verbatim>\<open>RecursionError\<close>, which the function's own handler turns into \<^verbatim>\<open>None\<close>
  like every other exception.
\<close>

primrec get_directory_structure ::
  "nat \<Rightarrow> 'w env \<Rightarrow> string \<Rightarrow> string \<Rightarrow> pyval \<Rightarrow> pyval \<Rightarrow> 'w world \<Rightarrow> pyval \<times> 'w world" where
  "get_directory_structure 0 env base_url branch hdrs dir_path W = (PNone, W)"
| "get_directory_structure (Suc depth) env base_url branch hdrs dir_path W =
     (case requests_get env (src_request env base_url branch hdrs dir_path) W of
        (Raises e, W1) \<Rightarrow> (PNone, W1)
      | (Response status txt js, W1) \<Rightarrow>
          if status = 200 then
            (case js of
               Inl e \<Rightarrow> (PNone, W1)
             | Inr data \<Rightarrow>
            (case py_get data ''values'' (PList []) of
               Inl e \<Rightarrow> (PNone, W1)
             | Inr vals \<Rightarrow>
            (case py_iter vals of
               Inl e \<Rightarrow> (PNone, W1)
             | Inr items \<Rightarrow>
            (case for_items
                    (structure_item env (get_directory_structure depth env base_url branch hdrs)
                       base_url branch hdrs)
                    items [] W1 of
               (Inl e, W2) \<Rightarrow> (PNone, W2)
             | (Inr children, W2) \<Rightarrow> (directory_info dir_path children, W2)))))
          else (PNone, W1))"

text \<open>
  A tool returns \<open>Inr\<close> of its result envelope, or \<open>Inl e\<close> when the exception
  \<open>e\<close> leaves the tool and reaches its caller. It also returns the global and the world
  as it leaves them.
\<close>

type_synonym 'w tool_result = "(exn + pyval) \<times> globals \<times> 'w world"

text \<open>
  The tool \<^verbatim>\<open>get_repository_codebase\<close>. It never assigns the global. The whole body
  of \<open>get_directory_structure\<close> is inside that function's own \<^verbatim>\<open>try\<close>, so no
  exception reaches the \<^verbatim>\<open>try\<close> of the tool, and the handler of the tool
  (\<^verbatim>\<open>Exception while getting codebase\<close>) has no branch here.
\<close>

definition get_repository_codebase ::
  "'w env \<Rightarrow> string \<Rightarrow> string \<Rightarrow> string \<Rightarrow> string \<Rightarrow> globals \<Rightarrow> 'w world \<Rightarrow> 'w tool_result" where
  "get_repository_codebase env workspace repo_slug branch path g W =
     (if \<not> truthy (auth_headers g) then
        (Inr (PDict [(''success'', PBool False),
                     (''error'', PStr ''Not authenticated. Please authenticate first.'')]), g, W)
      else
        (case get_directory_structure (recursion_limit env) env
                (base_url_of workspace repo_slug) branch (auth_headers g) (PStr path) W of
           (structure, W1) \<Rightarrow>
             if truthy structure then
               (Inr (PDict [(''success'', PBool True), (''workspace'', PStr workspace),
                            (''repository'', PStr repo_slug), (''branch'', PStr branch),
                            (''structure'', structure)]), g, W1)
             else
               (Inr (PDict [(''success'', PBool False),
                            (''error'', PStr ''Failed to get codebase structure'')]), g, W1)))"

subsection \<open>authenticate_user\<close>

text \<open>\<^verbatim>\<open>v[key]\<close> with a string key: a dict without the key raises KeyError, anything
  that is not a dict raises TypeError.\<close>

fun py_subscript :: "pyval \<Rightarrow> string \<Rightarrow> exn + pyval" where
  "py_subscript (PDict kvs) k = (case map_of kvs k of None \<Rightarrow> Inl (KeyError k) | Some v \<Rightarrow> Inr v)"
| "py_subscript v k = Inl (TypeError v)"

definition user_request :: "pyval \<Rightarrow> request" where
  "user_request hdrs =
     \<lparr>url = PStr ''https://api.bitbucket.org/2.0/user'', headers = hdrs, params = PNone\<rparr>"

definition authentication_exception :: "'w env \<Rightarrow> exn \<Rightarrow> pyval" where
  "authentication_exception env e =
     PDict [(''success'', PBool False),
            (''error'', PStr (''Exception during authentication: '' @ exn_str env e))]"

text \<open>
  \<open>email\<close> is the argument \<^verbatim>\<open>email: str = None\<close>. In the branch of status 200 the
  global is assigned before the result dict is built, and the message of the dict reads
  \<^verbatim>\<open>user_data['username']\<close>.
\<close>

definition authenticate_user :: "'w env \<Rightarrow> pyval \<Rightarrow> globals \<Rightarrow> 'w world \<Rightarrow> 'w tool_result" where
  "authenticate_user env email g W =
     (if email = PNone \<and> BITBUCKET_EMAIL env = [] then
        (Inr (PDict [(''success'', PBool False),
                     (''error'', PStr ''No email provided and BITBUCKET_EMAIL not configured. Please provide an email parameter or set BITBUCKET_EMAIL in your configuration.'')]),
         g, W)
      else
        (let email1 = (if email = PNone then PStr (BITBUCKET_EMAIL env) else email);
             hdrs = get_headers_with_email env email1
         in case requests_get env (user_request hdrs) W of
              (Raises e, W1) \<Rightarrow> (Inr (authentication_exception env e), g, W1)
            | (Response status txt js, W1) \<Rightarrow>
                if status = 200 then
                  (case js of
                     Inl e \<Rightarrow> (Inr (authentication_exception env e), g, W1)
                   | Inr user_data \<Rightarrow>
                       (let g1 = g\<lparr>auth_headers := hdrs\<rparr>
                        in case py_subscript user_data ''username'' of
                             Inl e \<Rightarrow> (Inr (authentication_exception env e), g1, W1)
                           | Inr username \<Rightarrow>
                               (Inr (PDict [(''success'', PBool True), (''user'', user_data),
                                    (''message'', PStr (''Authenticated as: '' @ fstr env username
                                        @ '' using email: '' @ fstr env email1))]),
                                g1, W1)))
                else
                  (Inr (PDict [(''success'', PBool False),
                               (''error'', PStr (''Authentication failed: '' @ str_int status)),
                               (''details'', PStr txt)]),
                   g, W1)))"

text \<open>
  The block that opens \<^verbatim>\<open>get_workspaces\<close>, \<^verbatim>\<open>get_repositories\<close>,
  \<^verbatim>\<open>get_specific_file_content\<close> and \<^verbatim>\<open>get_repository_files_list\<close>, the same text
  in the four. It stands before the \<^verbatim>\<open>try\<close>. \<open>Inl r\<close>: the tool ends here with
  \<open>r\<close>; \<open>Inr ()\<close>: it goes on.
\<close>

definition ensure_authenticated ::
  "'w env \<Rightarrow> globals \<Rightarrow> 'w world \<Rightarrow> ((exn + pyval) + unit) \<times> globals \<times> 'w world" where
  "ensure_authenticated env g W =
     (if \<not> truthy (auth_headers g) then
        (if BITBUCKET_EMAIL env \<noteq> [] then
           (case authenticate_user env PNone g W of
              (Inl e, g1, W1) \<Rightarrow> (Inl (Inl e), g1, W1)
            | (Inr auth_result, g1, W1) \<Rightarrow>
                (case py_get auth_result ''success'' PNone of
                   Inl e \<Rightarrow> (Inl (Inl e), g1, W1)
                 | Inr ok \<Rightarrow>
                     if \<not> truthy ok then (Inl (Inr auth_result), g1, W1)
                     else (Inr (), g1, W1)))
         else
           (Inl (Inr (PDict [(''success'', PBool False),
                             (''error'', PStr ''Not authenticated. Please authenticate first using authenticate_user() or configure BITBUCKET_EMAIL.'')])),
            g, W))
      else (Inr (), g, W))"

subsection \<open>get_workspaces\<close>

definition workspaces_request :: "pyval \<Rightarrow> request" where
  "workspaces_request hdrs =
     \<lparr>url = PStr ''https://api.bitbucket.org/2.0/workspaces'', headers = hdrs, params = PNone\<rparr>"

text \<open>The \<^verbatim>\<open>try\<close> block of \<^verbatim>\<open>get_workspaces\<close> after the request; \<open>Inl\<close> is an
  exception raised inside it.\<close>

definition workspaces_of_response :: "response \<Rightarrow> exn + pyval" where
  "workspaces_of_response resp =
     (case resp of
        Raises e \<Rightarrow> Inl e
      | Response status txt js \<Rightarrow>
          if status = 200 then
            (case js of
               Inl e \<Rightarrow> Inl e
             | Inr data \<Rightarrow>
            (case py_get data ''values'' (PList []) of
               Inl e \<Rightarrow> Inl e
             | Inr workspaces \<Rightarrow>
            (case py_len workspaces of
               Inl e \<Rightarrow> Inl e
             | Inr n \<Rightarrow>
                 Inr (PDict [(''success'', PBool True), (''workspaces'', workspaces),
                             (''count'', PInt n)]))))
          else
            Inr (PDict [(''success'', PBool False),
                        (''error'', PStr (''Failed to get workspaces: '' @ str_int status)),
                        (''details'', PStr txt)]))"

definition get_workspaces :: "'w env \<Rightarrow> globals \<Rightarrow> 'w world \<Rightarrow> 'w tool_result" where
  "get_workspaces env g W =
     (case ensure_authenticated env g W of
        (Inl r, g1, W1) \<Rightarrow> (r, g1, W1)
      | (Inr u, g1, W1) \<Rightarrow>
          (case requests_get env (workspaces_request (auth_headers g1)) W1 of
             (resp, W2) \<Rightarrow>
               (case workspaces_of_response resp of
                  Inl e \<Rightarrow>
                    (Inr (PDict [(''success'', PBool False),
                                 (''error'', PStr (''Exception while getting workspaces: ''
                                                    @ exn_str env e))]), g1, W2)
                | Inr r \<Rightarrow> (Inr r, g1, W2))))"

subsection \<open>get_repositories\<close>

text \<open>
  One turn of the loop \<^verbatim>\<open>while next_url:\<close>. \<open>Inl (Inl e)\<close>: the exception
  \<open>e\<close> leaves the loop; \<open>Inl (Inr r)\<close>: the function returns \<open>r\<close> from inside
  the loop; \<open>Inr (next_url, all_repos)\<close>: the two variables as the turn leaves them.
\<close>

definition repositories_page ::
  "'w env \<Rightarrow> pyval \<Rightarrow> pyval \<Rightarrow> pyval \<Rightarrow> pyval list \<Rightarrow> 'w world \<Rightarrow>
   ((exn + pyval) + pyval \<times> pyval list) \<times> 'w world" where
  "repositories_page env hdrs next_url prms all_repos W =
     (case requests_get env \<lparr>url = next_url, headers = hdrs, params = prms\<rparr> W of
        (Raises e, W1) \<Rightarrow> (Inl (Inl e), W1)
      | (Response status txt js, W1) \<Rightarrow>
          if status = 200 then
            (case js of
               Inl e \<Rightarrow> (Inl (Inl e), W1)
             | Inr data \<Rightarrow>
            (case py_get data ''values'' (PList []) of
               Inl e \<Rightarrow> (Inl (Inl e), W1)
             | Inr repos \<Rightarrow>
            (case py_iter repos of
               Inl e \<Rightarrow> (Inl (Inl e), W1)
             | Inr rs \<Rightarrow>
            (case py_get data ''next'' PNone of
               Inl e \<Rightarrow> (Inl (Inl e), W1)
             | Inr nxt \<Rightarrow> (Inr (nxt, all_repos @ rs), W1)))))
          else
            (Inl (Inr (PDict [(''success'', PBool False),
                              (''error'', PStr (''Failed to get repositories: '' @ str_int status)),
                              (''details'', PStr txt)])), W1))"

text \<open>
  The loop itself. Nothing bounds the number of pages, so it is a partial function:
  \<open>None\<close> is a loop that never ends. After the first turn the request parameters are
  the empty dict.
\<close>

partial_function (option) repositories_loop ::
  "'w env \<Rightarrow> pyval \<Rightarrow> pyval \<Rightarrow> pyval \<Rightarrow> pyval list \<Rightarrow> 'w world \<Rightarrow> ((exn + pyval) \<times> 'w world) option"
where
  "repositories_loop env hdrs next_url prms all_repos W =
     (if truthy next_url then
        (case repositories_page env hdrs next_url prms all_repos W of
           (Inl r, W1) \<Rightarrow> Some (r, W1)
         | (Inr (nxt, all_repos1), W1) \<Rightarrow>
             repositories_loop env hdrs nxt (PDict []) all_repos1 W1)
      else
        Some (Inr (PDict [(''success'', PBool True), (''repositories'', PList all_repos),
                          (''count'', PInt (int (length all_repos)))]), W))"

definition repositories_url :: "'w env \<Rightarrow> pyval \<Rightarrow> pyval" where
  "repositories_url env workspace =
     (if truthy workspace
      then PStr (''https://api.bitbucket.org/2.0/repositories/'' @ fstr env workspace)
      else PStr ''https://api.bitbucket.org/2.0/repositories'')"

definition first_page_params :: "int \<Rightarrow> pyval" where
  "first_page_params page_size =
     PDict [(''pagelen'', PInt page_size), (''sort'', PStr ''-updated_on'')]"

text \<open>\<open>workspace\<close> is the argument \<^verbatim>\<open>workspace: Optional[str] = None\<close>. \<open>None\<close>: the
  tool never returns.\<close>

definition get_repositories ::
  "'w env \<Rightarrow> pyval \<Rightarrow> int \<Rightarrow> globals \<Rightarrow> 'w world \<Rightarrow> 'w tool_result option" where
  "get_repositories env workspace page_size g W =
     (case ensure_authenticated env g W of
        (Inl r, g1, W1) \<Rightarrow> Some (r, g1, W1)
      | (Inr u, g1, W1) \<Rightarrow>
          (case repositories_loop env (auth_headers g1) (repositories_url env workspace)
                  (first_page_params page_size) [] W1 of
             None \<Rightarrow> None
           | Some (Inl e, W2) \<Rightarrow>
               Some (Inr (PDict [(''success'', PBool False),
                                 (''error'', PStr (''Exception while getting repositories: ''
                                                    @ exn_str env e))]), g1, W2)
           | Some (Inr r, W2) \<Rightarrow> Some (Inr r, g1, W2)))"

subsection \<open>get_specific_file_content\<close>

definition get_specific_file_content ::
  "'w env \<Rightarrow> string \<Rightarrow> string \<Rightarrow> string \<Rightarrow> string \<Rightarrow> globals \<Rightarrow> 'w world \<Rightarrow> 'w tool_result" where
  "get_specific_file_content env workspace repo_slug file_path branch g W =
     (case ensure_authenticated env g W of
        (Inl r, g1, W1) \<Rightarrow> (r, g1, W1)
      | (Inr u, g1, W1) \<Rightarrow>
          (case requests_get env
                  (src_request env (base_url_of workspace repo_slug) branch (auth_headers g1)
                     (PStr file_path)) W1 of
             (Raises e, W2) \<Rightarrow>
               (Inr (PDict [(''success'', PBool False),
                            (''error'', PStr (''Exception while fetching '' @ file_path @ '': ''
                                               @ exn_str env e))]), g1, W2)
           | (Response status txt js, W2) \<Rightarrow>
               if status = 200 then
                 (Inr (PDict [(''success'', PBool True), (''workspace'', PStr workspace),
                              (''repository'', PStr repo_slug), (''file_path'', PStr file_path),
                              (''branch'', PStr branch), (''content'', PStr txt),
                              (''size'', PInt (int (length txt)))]), g1, W2)
               else
                 (Inr (PDict [(''success'', PBool False),
                              (''error'', PStr (''Could not fetch file '' @ file_path
                                                 @ '' (Status: '' @ str_int status @ '')''))]),
                  g1, W2)))"

subsection \<open>get_repository_files_list\<close>

text \<open>
  The body of the loop of \<^verbatim>\<open>get_files_recursive\<close>. The list \<^verbatim>\<open>all_files\<close> of the
  enclosing tool is part of the state: what was appended stays when an exception ends the
  loop. The value of the recursive call is dropped.
\<close>

definition files_item ::
  "(pyval \<Rightarrow> pyval list \<times> 'w world \<Rightarrow> pyval \<times> pyval list \<times> 'w world) \<Rightarrow>
   pyval \<Rightarrow> unit \<Rightarrow> pyval list \<times> 'w world \<Rightarrow> (exn + unit) \<times> pyval list \<times> 'w world" where
  "files_item recurse item u S =
     (case py_get item ''type'' (PStr ''unknown'') of
        Inl e \<Rightarrow> (Inl e, S)
      | Inr item_type \<Rightarrow>
     (case py_get item ''path'' (PStr []) of
        Inl e \<Rightarrow> (Inl e, S)
      | Inr item_path \<Rightarrow>
          if item_type = PStr ''commit_file'' then
            (case S of (all_files, W) \<Rightarrow> (Inr (), all_files @ [item_path], W))
          else if item_type = PStr ''commit_directory'' then
            (case recurse item_path S of (r, S1) \<Rightarrow> (Inr (), S1))
          else (Inr (), S)))"

text \<open>
  \<^verbatim>\<open>get_files_recursive\<close> returns \<^verbatim>\<open>False\<close> when it fails and \<^verbatim>\<open>None\<close> (it ends
  without a \<^verbatim>\<open>return\<close>) otherwise. The first argument bounds the nesting of calls as
  in \<open>get_directory_structure\<close>.
\<close>

primrec get_files_recursive ::
  "nat \<Rightarrow> 'w env \<Rightarrow> string \<Rightarrow> string \<Rightarrow> pyval \<Rightarrow> pyval \<Rightarrow> pyval list \<times> 'w world \<Rightarrow>
   pyval \<times> pyval list \<times> 'w world" where
  "get_files_recursive 0 env base_url branch hdrs dir_path S = (PBool False, S)"
| "get_files_recursive (Suc depth) env base_url branch hdrs dir_path S =
     (case S of (all_files, W) \<Rightarrow>
     (case requests_get env (src_request env base_url branch hdrs dir_path) W of
        (Raises e, W1) \<Rightarrow> (PBool False, all_files, W1)
      | (Response status txt js, W1) \<Rightarrow>
          if status = 200 then
            (case js of
               Inl e \<Rightarrow> (PBool False, all_files, W1)
             | Inr data \<Rightarrow>
            (case py_get data ''values'' (PList []) of
               Inl e \<Rightarrow> (PBool False, all_files, W1)
             | Inr vals \<Rightarrow>
            (case py_iter vals of
               Inl e \<Rightarrow> (PBool False, all_files, W1)
             | Inr items \<Rightarrow>
            (case for_items
                    (files_item (get_files_recursive depth env base_url branch hdrs))
                    items () (all_files, W1) of
               (Inl e, S2) \<Rightarrow> (PBool False, S2)
             | (Inr u, S2) \<Rightarrow> (PNone, S2)))))
          else (PBool False, all_files, W1)))"

definition code_extensions :: "string list" where
  "code_extensions =
     [''.py'', ''.js'', ''.ts'', ''.java'', ''.cpp'', ''.c'', ''.h'', ''.html'', ''.css'',
      ''.json'', ''.xml'', ''.md'', ''.txt'', ''.yml'', ''.yaml'', ''.sh'', ''.bat'', ''.ps1'',
      ''.dart'', ''.kt'', ''.swift'', ''.rb'', ''.php'', ''.go'', ''.rs'', ''.cs'', ''.vb'',
      ''.sql'']"

text \<open>\<^verbatim>\<open>[f for f in all_files if f.lower().endswith(code_extensions)]\<close>\<close>

fun code_files_of :: "pyval list \<Rightarrow> exn + pyval list" where
  "code_files_of [] = Inr []"
| "code_files_of (f # fs) =
     (case py_lower f of
        Inl e \<Rightarrow> Inl e
      | Inr l \<Rightarrow>
     (case py_endswith l code_extensions of
        Inl e \<Rightarrow> Inl e
      | Inr keep \<Rightarrow>
     (case code_files_of fs of
        Inl e \<Rightarrow> Inl e
      | Inr r \<Rightarrow> Inr (if keep then f # r else r))))"

definition get_repository_files_list ::
  "'w env \<Rightarrow> string \<Rightarrow> string \<Rightarrow> string \<Rightarrow> string \<Rightarrow> globals \<Rightarrow> 'w world \<Rightarrow> 'w tool_result" where
  "get_repository_files_list env workspace repo_slug branch path g W =
     (case ensure_authenticated env g W of
        (Inl r, g1, W1) \<Rightarrow> (r, g1, W1)
      | (Inr u, g1, W1) \<Rightarrow>
          (case get_files_recursive (recursion_limit env) env (base_url_of workspace repo_slug)
                  branch (auth_headers g1) (PStr path) ([], W1) of
             (success, all_files, W2) \<Rightarrow>
               if success = PBool False then
                 (Inr (PDict [(''success'', PBool False),
                              (''error'', PStr ''Failed to get files list'')]), g1, W2)
               else
                 (case code_files_of all_files of
                    Inl e \<Rightarrow>
                      (Inr (PDict [(''success'', PBool False),
                                   (''error'', PStr (''Exception while getting files list: ''
                                                      @ exn_str env e))]), g1, W2)
                  | Inr code_files \<Rightarrow>
                      (Inr (PDict [(''success'', PBool True), (''workspace'', PStr workspace),
                                   (''repository'', PStr repo_slug), (''branch'', PStr branch),
                                   (''all_files'', PList all_files),
                                   (''code_files'', PList code_files),
                                   (''total_files'', PInt (int (length all_files))),
                                   (''code_files_count'', PInt (int (length code_files)))]),
                       g1, W2))))"

subsection \<open>save_codebase_to_file\<close>

definition saving_exception :: "'w env \<Rightarrow> exn \<Rightarrow> pyval" where
  "saving_exception env e =
     PDict [(''success'', PBool False),
            (''error'', PStr (''Error saving to file: '' @ exn_str env e))]"

text \<open>The whole body of the tool is inside its \<^verbatim>\<open>try\<close>. \<open>write_json\<close> is
  \<^verbatim>\<open>open(filename, 'w')\<close> followed by \<^verbatim>\<open>json.dump\<close>.\<close>

definition save_codebase_to_file ::
  "'w env \<Rightarrow> string \<Rightarrow> string \<Rightarrow> string \<Rightarrow> string \<Rightarrow> string \<Rightarrow> globals \<Rightarrow> 'w world \<Rightarrow>
   'w tool_result" where
  "save_codebase_to_file env workspace repo_slug filename branch path g W =
     (case get_repository_codebase env workspace repo_slug branch path g W of
        (Inl e, g1, W1) \<Rightarrow> (Inr (saving_exception env e), g1, W1)
      | (Inr codebase_result, g1, W1) \<Rightarrow>
     (case py_get codebase_result ''success'' PNone of
        Inl e \<Rightarrow> (Inr (saving_exception env e), g1, W1)
      | Inr ok \<Rightarrow>
          if \<not> truthy ok then (Inr codebase_result, g1, W1)
          else
     (case py_subscript codebase_result ''structure'' of
        Inl e \<Rightarrow> (Inr (saving_exception env e), g1, W1)
      | Inr structure \<Rightarrow>
     (case W1 of (w1, issued) \<Rightarrow>
     (case write_json env w1 filename
             (PDict [(''workspace'', PStr workspace), (''repository'', PStr repo_slug),
                     (''timestamp'', PStr (now_isoformat env w1)), (''structure'', structure)]) of
        (Some e, w2) \<Rightarrow> (Inr (saving_exception env e), g1, (w2, issued))
      | (None, w2) \<Rightarrow>
          (Inr (PDict [(''success'', PBool True), (''filename'', PStr filename),
                       (''workspace'', PStr workspace), (''repository'', PStr repo_slug),
                       (''message'', PStr (''Codebase structure saved to '' @ filename))]),
           g1, (w2, issued)))))))"

section \<open>Notions used by the properties\<close>

text \<open>A request that raised or came back with a status other than 200.\<close>

definition request_failed :: "response \<Rightarrow> bool" where
  "request_failed resp = (case resp of Raises e \<Rightarrow> True | Response status txt js \<Rightarrow> status \<noteq> 200)"

text \<open>The value under a key of a dict; nothing for a value that is not a dict.\<close>

definition field :: "pyval \<Rightarrow> string \<Rightarrow> pyval option" where
  "field v k = (case v of PDict kvs \<Rightarrow> map_of kvs k | _ \<Rightarrow> None)"

text \<open>A result envelope: a dict whose key \<^verbatim>\<open>success\<close> holds a boolean.\<close>

definition is_envelope :: "pyval \<Rightarrow> bool" where
  "is_envelope r = (case field r ''success'' of Some (PBool b) \<Rightarrow> True | _ \<Rightarrow> False)"

text \<open>What a tool returned is an envelope, and no exception left the tool.\<close>

definition returns_envelope :: "'w tool_result \<Rightarrow> bool" where
  "returns_envelope res = (case fst res of Inl e \<Rightarrow> False | Inr r \<Rightarrow> is_envelope r)"

text \<open>
  The error string that \<open>get_file_contents\<close> puts in place of the content when the
  request for the file at path \<open>p\<close> had the outcome \<open>resp\<close>.
\<close>

definition content_error :: "'w env \<Rightarrow> string \<Rightarrow> response \<Rightarrow> string" where
  "content_error env p resp =
     (case resp of
        Raises e \<Rightarrow> ''Error: Exception while fetching '' @ p @ '': '' @ exn_str env e
      | Response status txt js \<Rightarrow>
          ''Error: Could not fetch file '' @ p @ '' (Status: '' @ str_int status @ '')'')"

text \<open>
  An unchanged remote: the answer to a request does not depend on the state of the
  outside, so the same request gets the same answer at every moment.
\<close>

definition unchanged_remote :: "'w env \<Rightarrow> bool" where
  "unchanged_remote env \<longleftrightarrow> (\<forall>w w' req. fst (remote env w req) = fst (remote env w' req))"

text \<open>
  The remote serves the pages \<open>pages\<close> (the \<^verbatim>\<open>values\<close> of each) to the loop of
  \<open>get_repositories\<close> that starts at \<open>next_url\<close>: every page answers with status 200,
  every page but the last names the next one in a truthy \<^verbatim>\<open>next\<close>, and the last has no
  \<^verbatim>\<open>next\<close>.
\<close>

fun serves_pages ::
  "'w env \<Rightarrow> pyval \<Rightarrow> pyval \<Rightarrow> pyval \<Rightarrow> 'w world \<Rightarrow> pyval list list \<Rightarrow> bool" where
  "serves_pages env hdrs next_url prms W [] = False"
| "serves_pages env hdrs next_url prms W (page # pages) =
     (truthy next_url \<and>
      (case requests_get env \<lparr>url = next_url, headers = hdrs, params = prms\<rparr> W of
         (Response status txt (Inr (PDict kvs)), W1) \<Rightarrow>
           status = 200 \<and> map_of kvs ''values'' = Some (PList page) \<and>
           (case map_of kvs ''next'' of
              None \<Rightarrow> pages = []
            | Some nxt \<Rightarrow> pages \<noteq> [] \<and> serves_pages env hdrs nxt (PDict []) W1 pages)
       | _ \<Rightarrow> False))"

text \<open>The world after the last of the pages has been requested.\<close>

fun world_after_pages ::
  "'w env \<Rightarrow> pyval \<Rightarrow> pyval \<Rightarrow> pyval \<Rightarrow> 'w world \<Rightarrow> pyval list list \<Rightarrow> 'w world" where
  "world_after_pages env hdrs next_url prms W [] = W"
| "world_after_pages env hdrs next_url prms W (page # pages) =
     (case requests_get env \<lparr>url = next_url, headers = hdrs, params = prms\<rparr> W of
        (Response status txt (Inr (PDict kvs)), W1) \<Rightarrow>
          (case map_of kvs ''next'' of
             None \<Rightarrow> W1
           | Some nxt \<Rightarrow> world_after_pages env hdrs nxt (PDict []) W1 pages)
      | (resp, W1) \<Rightarrow> W1)"

text \<open>
  The loop of \<open>get_repositories\<close> ends within \<open>n\<close> further requests: it meets a falsy
  \<^verbatim>\<open>next_url\<close>, an exception or a status other than 200.
\<close>

primrec ends_within ::
  "nat \<Rightarrow> 'w env \<Rightarrow> pyval \<Rightarrow> pyval \<Rightarrow> pyval \<Rightarrow> pyval list \<Rightarrow> 'w world \<Rightarrow> bool" where
  "ends_within 0 env hdrs next_url prms all_repos W = (\<not> truthy next_url)"
| "ends_within (Suc n) env hdrs next_url prms all_repos W =
     (if truthy next_url then
        (case repositories_page env hdrs next_url prms all_repos W of
           (Inl r, W1) \<Rightarrow> True
         | (Inr (nxt, all_repos1), W1) \<Rightarrow> ends_within n env hdrs nxt (PDict []) all_repos1 W1)
      else True)"

text \<open>
  The loop over the entries of a directory, its subdirectories being fetched by calls that
  may still nest \<open>n\<close> deep.
\<close>

abbreviation entries_loop ::
  "'w env \<Rightarrow> string \<Rightarrow> string \<Rightarrow> pyval \<Rightarrow> nat \<Rightarrow> pyval list \<Rightarrow> pyval list \<Rightarrow> 'w world \<Rightarrow>
   (exn + pyval list) \<times> 'w world" where
  "entries_loop env base_url branch hdrs n \<equiv>
     for_items (structure_item env (get_directory_structure n env base_url branch hdrs)
                  base_url branch hdrs)"

text \<open>
  The entries that a response to a listing request gives to the loop: the response has
  status 200, its body is JSON, the value has the method \<^verbatim>\<open>get\<close> and what is under
  \<^verbatim>\<open>values\<close> can be iterated. \<open>None\<close> in every other case, the raised request
  included.
\<close>

definition listed_items :: "response \<Rightarrow> pyval list option" where
  "listed_items resp =
     (case resp of
        Raises e \<Rightarrow> None
      | Response status txt js \<Rightarrow>
          if status = 200 then
            (case js of
               Inl e \<Rightarrow> None
             | Inr data \<Rightarrow>
            (case py_get data ''values'' (PList []) of
               Inl e \<Rightarrow> None
             | Inr vals \<Rightarrow>
            (case py_iter vals of
               Inl e \<Rightarrow> None
             | Inr items \<Rightarrow> Some items)))
          else None)"

text \<open>
  The listing of the directory \<open>p\<close>, requested in the world \<open>W\<close>, fails and leaves
  the world \<open>W'\<close>: the request raises, or comes back with a status other than 200, or an
  exception is raised after it, be it by a body that is not a JSON listing or inside the loop
  over the entries.
\<close>

definition listing_fails ::
  "'w env \<Rightarrow> string \<Rightarrow> string \<Rightarrow> pyval \<Rightarrow> nat \<Rightarrow> pyval \<Rightarrow> 'w world \<Rightarrow> 'w world \<Rightarrow> bool" where
  "listing_fails env base_url branch hdrs n p W W' =
     (case requests_get env (src_request env base_url branch hdrs p) W of
        (resp, W1) \<Rightarrow>
          (case listed_items resp of
             None \<Rightarrow> W' = W1
           | Some items \<Rightarrow>
               (case entries_loop env base_url branch hdrs n items [] W1 of
                  (Inl e, W2) \<Rightarrow> W' = W2
                | (Inr children, W2) \<Rightarrow> False)))"

text \<open>A node occurs in a tree: it is the tree, or it occurs in one of its children.\<close>

inductive occurs_in :: "pyval \<Rightarrow> pyval \<Rightarrow> bool" where
  itself: "occurs_in t t"
| below: "field t ''children'' = Some (PList cs) \<Longrightarrow> c \<in> set cs \<Longrightarrow> occurs_in s c \<Longrightarrow> occurs_in s t"

text \<open>
  The call for the directory \<open>dir\<close> (nesting \<open>n\<close>, world \<open>W\<close>) goes down through
  listings that succeed to the call for the directory \<open>inner\<close> (nesting \<open>m\<close>, world
  \<open>Win\<close>). If the inner call returns \<open>inner_node\<close> and leaves the world \<open>Wout\<close>, the
  call for \<open>dir\<close> returns \<open>node\<close> and leaves \<open>W'\<close>. At each level the entries before
  and after the one that leads down are processed without exception; \<open>inner\<close> may lie at
  any depth below \<open>dir\<close>, or be \<open>dir\<close> itself.
\<close>

inductive descends ::
  "'w env \<Rightarrow> string \<Rightarrow> string \<Rightarrow> pyval \<Rightarrow> nat \<Rightarrow> pyval \<Rightarrow> 'w world \<Rightarrow> pyval \<Rightarrow> 'w world \<Rightarrow>
   nat \<Rightarrow> pyval \<Rightarrow> 'w world \<Rightarrow> pyval \<Rightarrow> 'w world \<Rightarrow> bool"
  for env base_url branch hdrs m inner Win inner_node Wout
where
  here: "descends env base_url branch hdrs m inner Win inner_node Wout m inner Win inner_node Wout"
| through:
    "requests_get env (src_request env base_url branch hdrs dir) W = (resp, W1) \<Longrightarrow>
     listed_items resp = Some (before @ item # rest) \<Longrightarrow>
     entries_loop env base_url branch hdrs n before [] W1 = (Inr ch, W2) \<Longrightarrow>
     py_get item ''type'' (PStr ''unknown'') = Inr (PStr ''commit_directory'') \<Longrightarrow>
     py_get item ''path'' (PStr []) = Inr p \<Longrightarrow>
     descends env base_url branch hdrs m inner Win inner_node Wout n p W2 sub W3 \<Longrightarrow>
     entries_loop env base_url branch hdrs n rest (ch @ [sub]) W3 = (Inr children, W4) \<Longrightarrow>
     descends env base_url branch hdrs m inner Win inner_node Wout
       (Suc n) dir W (directory_info dir children) W4"

section \<open>Concrete remotes\<close>

text \<open>What an interpreter prints for the exceptions met below.\<close>

definition plain_exn_str :: "exn \<Rightarrow> string" where
  "plain_exn_str e =
     (case e of
        RequestException m \<Rightarrow> m
      | JSONDecodeError m \<Rightarrow> m
      | AttributeError v a \<Rightarrow> ''object has no attribute '' @ a
      | TypeError v \<Rightarrow> ''unsupported operand''
      | KeyError k \<Rightarrow> [CHR 0x27] @ k @ [CHR 0x27]
      | OSError m \<Rightarrow> m
      | RecursionError \<Rightarrow> ''maximum recursion depth exceeded'')"

text \<open>
  A process configured with an email and a token, in front of a remote that answers every
  request by \<open>respond\<close>, with the interpreter's default recursion limit.
\<close>

definition service :: "(request \<Rightarrow> response) \<Rightarrow> unit env" where
  "service respond =
     \<lparr>BITBUCKET_TOKEN = ''token'', BITBUCKET_EMAIL = ''dev@example.com'',
      py_format = (\<lambda>v. ''<object>''), exn_str = plain_exn_str,
      remote = (\<lambda>w req. (respond req, w)), recursion_limit = 1000,
      write_json = (\<lambda>w filename v. (None, w)),
      now_isoformat = (\<lambda>w. ''2024-01-01T00:00:00'')\<rparr>"

definition start :: "unit world" where
  "start = ((), [])"

definition logged_in :: globals where
  "logged_in = \<lparr>auth_headers = PDict [(''Authorization'', PStr ''Basic ZGV2QGV4YW1wbGUuY29tOnRva2Vu'')]\<rparr>"

definition file_entry :: "string \<Rightarrow> int \<Rightarrow> pyval" where
  "file_entry p n = PDict [(''type'', PStr ''commit_file''), (''path'', PStr p), (''size'', PInt n)]"

definition directory_entry :: "string \<Rightarrow> pyval" where
  "directory_entry p = PDict [(''type'', PStr ''commit_directory''), (''path'', PStr p)]"

definition page_body :: "pyval list \<Rightarrow> pyval" where
  "page_body entries = PDict [(''values'', PList entries)]"

text \<open>
  The repository \<^verbatim>\<open>acme/widgets\<close>: five entries at the root. The listing of the
  directory \<^verbatim>\<open>src\<close> answers 404 and the content of \<^verbatim>\<open>notes.txt\<close> answers 500.
\<close>

definition widgets_root :: "pyval list" where
  "widgets_root =
     [file_entry ''README.MD'' 9, file_entry ''main.py'' 8, file_entry ''logo.png'' 2048,
      directory_entry ''src'', file_entry ''notes.txt'' 5]"

definition widgets :: "request \<Rightarrow> response" where
  "widgets req =
     (if url req = PStr ''https://api.bitbucket.org/2.0/repositories/acme/widgets/src/main/''
      then Response 200 ''{...}'' (Inr (page_body widgets_root))
      else if url req = PStr ''https://api.bitbucket.org/2.0/repositories/acme/widgets/src/main/README.MD''
      then Response 200 ''# Widgets'' (Inl (JSONDecodeError ''Expecting value''))
      else if url req = PStr ''https://api.bitbucket.org/2.0/repositories/acme/widgets/src/main/main.py''
      then Response 200 ''print(1)'' (Inl (JSONDecodeError ''Expecting value''))
      else if url req = PStr ''https://api.bitbucket.org/2.0/repositories/acme/widgets/src/main/logo.png''
      then Response 200 ''PNG'' (Inl (JSONDecodeError ''Expecting value''))
      else if url req = PStr ''https://api.bitbucket.org/2.0/repositories/acme/widgets/src/main/notes.txt''
      then Response 500 ''Internal Server Error'' (Inl (JSONDecodeError ''Expecting value''))
      else Response 404 ''Not Found'' (Inl (JSONDecodeError ''Expecting value'')))"

text \<open>A remote that is down: every request raises.\<close>

definition unreachable :: "request \<Rightarrow> response" where
  "unreachable req = Raises (RequestException ''Connection refused'')"

text \<open>Three pages of two repositories each; the third has no \<^verbatim>\<open>next\<close>.\<close>

definition repo_entry :: "string \<Rightarrow> pyval" where
  "repo_entry s = PDict [(''slug'', PStr s)]"

definition three_pages :: "request \<Rightarrow> response" where
  "three_pages req =
     (if url req = PStr ''https://api.bitbucket.org/2.0/repositories/acme''
      then Response 200 ''{...}''
             (Inr (PDict [(''values'', PList [repo_entry ''r1'', repo_entry ''r2'']),
                          (''next'', PStr ''https://api.bitbucket.org/2.0/repositories/acme?page=2'')]))
      else if url req = PStr ''https://api.bitbucket.org/2.0/repositories/acme?page=2''
      then Response 200 ''{...}''
             (Inr (PDict [(''values'', PList [repo_entry ''r3'', repo_entry ''r4'']),
                          (''next'', PStr ''https://api.bitbucket.org/2.0/repositories/acme?page=3'')]))
      else if url req = PStr ''https://api.bitbucket.org/2.0/repositories/acme?page=3''
      then Response 200 ''{...}''
             (Inr (PDict [(''values'', PList [repo_entry ''r5'', repo_entry ''r6''])]))
      else Response 404 ''Not Found'' (Inl (JSONDecodeError ''Expecting value'')))"

text \<open>A remote whose every page is empty and names a next page.\<close>

definition endless_pages :: "request \<Rightarrow> response" where
  "endless_pages req =
     Response 200 ''{...}''
       (Inr (PDict [(''values'', PList []),
                    (''next'', PStr ''https://api.bitbucket.org/2.0/repositories?page=2'')]))"

text \<open>A remote whose user endpoint answers 200 with a user object without \<^verbatim>\<open>username\<close>.\<close>

definition nameless_user :: "request \<Rightarrow> response" where
  "nameless_user req =
     (if url req = PStr ''https://api.bitbucket.org/2.0/user''
      then Response 200 ''{...}'' (Inr (PDict [(''display_name'', PStr ''Dev'')]))
      else Response 404 ''Not Found'' (Inl (JSONDecodeError ''Expecting value'')))"

text \<open>The request for the path \<open>p\<close> of \<^verbatim>\<open>acme/widgets\<close> on branch \<^verbatim>\<open>main\<close>.\<close>

definition widgets_request :: "string \<Rightarrow> request" where
  "widgets_request p =
     \<lparr>url = PStr (''https://api.bitbucket.org/2.0/repositories/acme/widgets/src/main/'' @ p),
      headers = PDict [(''Authorization'', PStr ''Basic ZGV2QGV4YW1wbGUuY29tOnRva2Vu'')],
      params = PNone\<rparr>"

text \<open>
  \<open>get_repositories\<close> ends within \<open>n\<close> requests for a page: it returns before its loop,
  or its loop ends within \<open>n\<close> requests.
\<close>

definition pagination_ends :: "nat \<Rightarrow> 'w env \<Rightarrow> pyval \<Rightarrow> int \<Rightarrow> globals \<Rightarrow> 'w world \<Rightarrow> bool" where
  "pagination_ends n env workspace page_size g W =
     (case ensure_authenticated env g W of
        (Inl r, g1, W1) \<Rightarrow> True
      | (Inr u, g1, W1) \<Rightarrow>
          ends_within n env (auth_headers g1) (repositories_url env workspace)
            (first_page_params page_size) [] W1)"

text \<open>A request of the loop of \<open>get_repositories\<close> for workspace \<^verbatim>\<open>acme\<close>.\<close>

definition acme_page :: "string \<Rightarrow> pyval \<Rightarrow> request" where
  "acme_page suffix prms =
     \<lparr>url = PStr (''https://api.bitbucket.org/2.0/repositories/acme'' @ suffix),
      headers = PDict [(''Authorization'', PStr ''Basic ZGV2QGV4YW1wbGUuY29tOnRva2Vu'')],
      params = prms\<rparr>"

definition six_repositories :: "pyval list" where
  "six_repositories =
     [repo_entry ''r1'', repo_entry ''r2'', repo_entry ''r3'', repo_entry ''r4'',
      repo_entry ''r5'', repo_entry ''r6'']"

text \<open>
  The repository \<^verbatim>\<open>acme/handbook\<close>: the root holds the directory \<^verbatim>\<open>docs\<close>, which
  holds two files and the directory \<^verbatim>\<open>docs/img\<close>. The listing of \<^verbatim>\<open>docs/img\<close>
  answers 404 and the content of \<^verbatim>\<open>docs/guide.md\<close> answers 503.
\<close>

definition handbook_docs :: "pyval list" where
  "handbook_docs =
     [file_entry ''docs/guide.md'' 120, directory_entry ''docs/img'',
      file_entry ''docs/index.txt'' 7]"

definition handbook :: "request \<Rightarrow> response" where
  "handbook req =
     (if url req = PStr ''https://api.bitbucket.org/2.0/repositories/acme/handbook/src/main/''
      then Response 200 ''{...}'' (Inr (page_body [directory_entry ''docs'']))
      else if url req = PStr ''https://api.bitbucket.org/2.0/repositories/acme/handbook/src/main/docs''
      then Response 200 ''{...}'' (Inr (page_body handbook_docs))
      else if url req = PStr ''https://api.bitbucket.org/2.0/repositories/acme/handbook/src/main/docs/guide.md''
      then Response 503 ''Service Unavailable'' (Inl (JSONDecodeError ''Expecting value''))
      else if url req = PStr ''https://api.bitbucket.org/2.0/repositories/acme/handbook/src/main/docs/index.txt''
      then Response 200 ''index'' (Inl (JSONDecodeError ''Expecting value''))
      else Response 404 ''Not Found'' (Inl (JSONDecodeError ''Expecting value'')))"

definition handbook_request :: "string \<Rightarrow> request" where
  "handbook_request p =
     \<lparr>url = PStr (''https://api.bitbucket.org/2.0/repositories/acme/handbook/src/main/'' @ p),
      headers = PDict [(''Authorization'', PStr ''Basic ZGV2QGV4YW1wbGUuY29tOnRva2Vu'')],
      params = PNone\<rparr>"

text \<open>The two file nodes of \<^verbatim>\<open>docs\<close> and the requests of a fetch, in order.\<close>

definition guide_node :: pyval where
  "guide_node =
     file_info (PStr ''docs/guide.md'') (PInt 120)
       (PStr ''Error: Could not fetch file docs/guide.md (Status: 503)'')"

definition index_node :: pyval where
  "index_node = file_info (PStr ''docs/index.txt'') (PInt 7) (PStr ''index'')"

definition handbook_log :: "request list" where
  "handbook_log =
     [handbook_request [], handbook_request ''docs'', handbook_request ''docs/guide.md'',
      handbook_request ''docs/img'', handbook_request ''docs/index.txt'']"

section \<open>Properties\<close>

subsection \<open>Auxiliary facts\<close>

lemma str_int_404: "str_int 404 = ''404''"
  by code_simp

lemma str_int_500: "str_int 500 = ''500''"
  by code_simp

lemma str_int_503: "str_int 503 = ''503''"
  by code_simp

lemmas scenario_defs =
  service_def widgets_def requests_get_def src_request_def base_url_of_def file_entry_def
  directory_entry_def page_body_def widgets_root_def structure_item_def get_file_contents_def
  content_extensions_def endswith_def file_info_def fstr_def logged_in_def start_def
  request_failed_def content_error_def str_int_404 str_int_500 unreachable_def
  directory_info_def field_def widgets_request_def

lemmas pages_defs =
  service_def three_pages_def requests_get_def logged_in_def start_def repositories_url_def
  first_page_params_def fstr_def acme_page_def six_repositories_def

lemmas handbook_defs =
  service_def handbook_def handbook_docs_def handbook_request_def guide_node_def index_node_def
  handbook_log_def requests_get_def src_request_def base_url_of_def file_entry_def
  directory_entry_def page_body_def structure_item_def get_file_contents_def
  content_extensions_def endswith_def file_info_def fstr_def logged_in_def start_def
  request_failed_def content_error_def str_int_404 str_int_503 directory_info_def
  listed_items_def listing_fails_def

lemma get_file_contents_failed:
  assumes "requests_get env (src_request env base_url branch hdrs (PStr p)) W = (resp, W1)"
      and "request_failed resp"
  shows "get_file_contents env base_url branch hdrs (PStr p) W = (content_error env p resp, W1)"
  using assms
  by (cases resp) (simp_all add: get_file_contents_def content_error_def request_failed_def fstr_def)

lemma get_directory_structure_failed:
  assumes "requests_get env (src_request env base_url branch hdrs p) W = (resp, W1)"
      and "request_failed resp"
  shows "get_directory_structure (Suc n) env base_url branch hdrs p W = (PNone, W1)"
  using assms
  by (cases resp) (simp_all add: request_failed_def)

lemma for_items_append:
  "for_items body (xs @ ys) acc W =
     (case for_items body xs acc W of
        (Inl e, W1) \<Rightarrow> (Inl e, W1)
      | (Inr acc1, W1) \<Rightarrow> for_items body ys acc1 W1)"
proof (induction xs arbitrary: acc W)
  case Nil
  show ?case by simp
next
  case (Cons x xs)
  show ?case
  proof (cases "body x acc W")
    case (Pair r W1)
    then show ?thesis using Cons.IH by (cases r) simp_all
  qed
qed

subsection \<open>Failure of the root listing\<close>

text \<open>
  Claim C1. When the request that lists the start path of \<open>get_repository_codebase\<close> raises
  or comes back with a status other than 200, the tool returns a failure envelope: its
  \<^verbatim>\<open>success\<close> is false and it has no \<^verbatim>\<open>structure\<close>, so no part of a tree is in the
  result. Read the other way round: a result that carries a directory node comes from a root
  listing that succeeded.
\<close>

theorem root_failure_no_tree:
  assumes "requests_get env (src_request env (base_url_of workspace repo_slug) branch
             (auth_headers g) (PStr path)) W = (resp, W1)"
      and "request_failed resp"
  shows "\<exists>r W2. get_repository_codebase env workspace repo_slug branch path g W = (Inr r, g, W2)
           \<and> field r ''success'' = Some (PBool False) \<and> field r ''structure'' = None"
proof (cases "truthy (auth_headers g)")
  case False
  then show ?thesis by (simp add: get_repository_codebase_def field_def)
next
  case True
  show ?thesis
  proof (cases "recursion_limit env")
    case 0
    with True show ?thesis by (simp add: get_repository_codebase_def field_def)
  next
    case (Suc n)
    with True get_directory_structure_failed[OF assms, of n] show ?thesis
      by (simp add: get_repository_codebase_def field_def del: get_directory_structure.simps)
  qed
qed

theorem root_failure_no_tree_witness:
  "request_failed (Raises (RequestException ''Connection refused''))
   \<and> (\<exists>r W2. get_repository_codebase (service unreachable) ''acme'' ''widgets'' ''main'' []
                logged_in start = (Inr r, logged_in, W2)
        \<and> field r ''success'' = Some (PBool False) \<and> field r ''structure'' = None)"
proof -
  have h1: "requests_get (service unreachable)
              (src_request (service unreachable) (base_url_of ''acme'' ''widgets'') ''main''
                 (auth_headers logged_in) (PStr [])) start
            = (Raises (RequestException ''Connection refused''), ((), [widgets_request []]))"
    by (simp add: scenario_defs)
  have h2: "request_failed (Raises (RequestException ''Connection refused''))"
    by (simp add: request_failed_def)
  from root_failure_no_tree[OF h1 h2] h2 show ?thesis by simp
qed

subsection \<open>The tree below the root\<close>

text \<open>The loop over the entries only ever appends to the children.\<close>

lemma structure_item_appends:
  assumes "structure_item env recurse base_url branch hdrs item children W = (Inr children1, W1)"
  shows "\<exists>more. children1 = children @ more"
  using assms
  by (auto simp add: structure_item_def split: sum.splits if_splits prod.splits bool.splits)

lemma for_items_appends:
  assumes "\<And>item acc W acc1 W1. body item acc W = (Inr acc1, W1) \<Longrightarrow> \<exists>more. acc1 = acc @ more"
      and "for_items body items acc W = (Inr acc1, W1)"
  shows "\<exists>more. acc1 = acc @ more"
  using assms(2)
proof (induction items arbitrary: acc W)
  case Nil
  then show ?case by simp
next
  case (Cons item items)
  obtain r V where b: "body item acc W = (r, V)" by (cases "body item acc W")
  show ?case
  proof (cases r)
    case (Inl e)
    with Cons.prems b show ?thesis by simp
  next
    case (Inr acc2)
    with assms(1)[of item acc W acc2 V] b obtain m1 where m1: "acc2 = acc @ m1" by auto
    from Cons.prems b Inr have "for_items body items acc2 V = (Inr acc1, W1)" by simp
    from Cons.IH[OF this] obtain m2 where "acc1 = acc2 @ m2" by blast
    with m1 show ?thesis by simp
  qed
qed

text \<open>
  In the loop: the node of a file whose content request failed is appended with the error
  string as its content, and the loop goes on with the next entry.
\<close>

text \<open>\<open>get_directory_structure\<close>, read as: request, entries, loop.\<close>

lemma get_directory_structure_listed:
  "get_directory_structure (Suc n) env base_url branch hdrs dir W =
     (case requests_get env (src_request env base_url branch hdrs dir) W of
        (resp, W1) \<Rightarrow>
          (case listed_items resp of
             None \<Rightarrow> (PNone, W1)
           | Some items \<Rightarrow>
               (case entries_loop env base_url branch hdrs n items [] W1 of
                  (Inl e, W2) \<Rightarrow> (PNone, W2)
                | (Inr children, W2) \<Rightarrow> (directory_info dir children, W2))))"
proof -
  obtain resp W1 where r: "requests_get env (src_request env base_url branch hdrs dir) W = (resp, W1)"
    by (cases "requests_get env (src_request env base_url branch hdrs dir) W")
  show ?thesis
  proof (cases resp)
    case (Raises e)
    with r show ?thesis by (simp add: listed_items_def)
  next
    case (Response status btext js)
    with r show ?thesis
      by (simp add: listed_items_def split: sum.splits)
  qed
qed

lemma listing_fails_None:
  assumes "listing_fails env base_url branch hdrs n p W W'"
  shows "get_directory_structure (Suc n) env base_url branch hdrs p W = (PNone, W')"
proof -
  obtain resp W1 where r: "requests_get env (src_request env base_url branch hdrs p) W = (resp, W1)"
    by (cases "requests_get env (src_request env base_url branch hdrs p) W")
  show ?thesis
  proof (cases "listed_items resp")
    case None
    with assms r show ?thesis
      unfolding get_directory_structure_listed by (auto simp add: listing_fails_def)
  next
    case (Some items)
    obtain c W2 where l: "entries_loop env base_url branch hdrs n items [] W1 = (c, W2)"
      by (cases "entries_loop env base_url branch hdrs n items [] W1")
    from assms r Some l show ?thesis
      unfolding get_directory_structure_listed by (cases c) (auto simp add: listing_fails_def)
  qed
qed

lemma occurs_in_trans:
  assumes "occurs_in b c" and "occurs_in a b"
  shows "occurs_in a c"
  using assms
proof (induction rule: occurs_in.induct)
  case (itself t)
  then show ?case .
next
  case (below t cs c s)
  from below.IH[OF below.prems] have "occurs_in a c" .
  with below.hyps(1,2) show ?case by (rule occurs_in.below)
qed

lemma occurs_in_child:
  assumes "c \<in> set children"
  shows "occurs_in c (directory_info dir children)"
proof -
  have "field (directory_info dir children) ''children'' = Some (PList children)"
    by (simp add: field_def directory_info_def)
  from this assms occurs_in.itself show ?thesis by (rule occurs_in.below)
qed

text \<open>
  In the loop: the node that the recursive call returns for a directory entry is appended
  when it is truthy, nothing is appended otherwise, and the loop goes on with the next entry.
\<close>

lemma directory_attached:
  assumes "py_get item ''type'' (PStr ''unknown'') = Inr (PStr ''commit_directory'')"
      and "py_get item ''path'' (PStr []) = Inr p"
      and "recurse p W = (sub, W1)"
  shows "for_items (structure_item env recurse base_url branch hdrs) (item # rest) children W =
         for_items (structure_item env recurse base_url branch hdrs) rest
           (if truthy sub then children @ [sub] else children) W1"
  using assms by (simp add: structure_item_def)

text \<open>
  Down a chain of listings that succeed: when the innermost call returns a node, every call
  above it returns its node, and the inner node occurs in the outer one.
\<close>

lemma descends_fetch:
  assumes "descends env base_url branch hdrs m inner Win inner_node Wout n dir W node W'"
      and "get_directory_structure m env base_url branch hdrs inner Win = (inner_node, Wout)"
      and "truthy inner_node"
  shows "get_directory_structure n env base_url branch hdrs dir W = (node, W')
         \<and> truthy node \<and> occurs_in inner_node node"
  using assms
proof (induction rule: descends.induct)
  case here
  then show ?case by (simp add: occurs_in.itself)
next
  case (through dir W resp W1 before item rest n ch W2 p sub W3 children W4)
  from through.IH[OF through.prems]
  have sub: "get_directory_structure n env base_url branch hdrs p W2 = (sub, W3)"
    and t: "truthy sub" and o: "occurs_in inner_node sub"
    by simp_all
  have "entries_loop env base_url branch hdrs n (before @ item # rest) [] W1 = (Inr children, W4)"
    using through.hyps(3) through.hyps(7) t
      directory_attached[where recurse = "get_directory_structure n env base_url branch hdrs",
        OF through.hyps(4) through.hyps(5) sub, of env base_url branch hdrs rest ch]
    by (simp add: for_items_append)
  with through.hyps(1,2)
  have node: "get_directory_structure (Suc n) env base_url branch hdrs dir W =
                (directory_info dir children, W4)"
    unfolding get_directory_structure_listed by simp
  have "\<exists>more. children = (ch @ [sub]) @ more"
    by (rule for_items_appends[OF _ through.hyps(7)]) (rule structure_item_appends)
  then have "sub \<in> set children" by auto
  then have "occurs_in sub (directory_info dir children)" by (rule occurs_in_child)
  from this o have "occurs_in inner_node (directory_info dir children)" by (rule occurs_in_trans)
  with node show ?case by (simp add: directory_info_def)
qed

lemma fetch_success:
  assumes "truthy (auth_headers g)"
      and "get_directory_structure (recursion_limit env) env (base_url_of workspace repo_slug)
             branch (auth_headers g) (PStr path) W = (node, W')"
      and "truthy node"
  shows "get_repository_codebase env workspace repo_slug branch path g W =
           (Inr (PDict [(''success'', PBool True), (''workspace'', PStr workspace),
                        (''repository'', PStr repo_slug), (''branch'', PStr branch),
                        (''structure'', node)]), g, W')"
  using assms by (simp add: get_repository_codebase_def)

text \<open>The fetch of \<^verbatim>\<open>acme/handbook\<close> down to the directory \<^verbatim>\<open>docs\<close>.\<close>

lemma handbook_root:
  "requests_get (service handbook)
     (src_request (service handbook) (base_url_of ''acme'' ''handbook'') ''main''
        (auth_headers logged_in) (PStr [])) start =
   (Response 200 ''{...}'' (Inr (page_body [directory_entry ''docs''])),
    ((), [handbook_request []]))"
  by (simp add: handbook_defs)

lemma handbook_docs_listing:
  "requests_get (service handbook)
     (src_request (service handbook) (base_url_of ''acme'' ''handbook'') ''main''
        (auth_headers logged_in) (PStr ''docs'')) ((), [handbook_request []]) =
   (Response 200 ''{...}'' (Inr (page_body handbook_docs)),
    ((), [handbook_request [], handbook_request ''docs'']))"
  by (simp add: handbook_defs)

lemma handbook_chain:
  "descends (service handbook) (base_url_of ''acme'' ''handbook'') ''main'' (auth_headers logged_in)
     (Suc (Suc k)) (PStr ''docs'') ((), [handbook_request []])
     (directory_info (PStr ''docs'') [guide_node, index_node]) ((), handbook_log)
     (Suc (Suc (Suc k))) (PStr []) start
     (directory_info (PStr []) [directory_info (PStr ''docs'') [guide_node, index_node]])
     ((), handbook_log)"
proof -
  let ?env = "service handbook"
  let ?base = "base_url_of ''acme'' ''handbook''"
  let ?hdrs = "auth_headers logged_in"
  let ?docs = "directory_info (PStr ''docs'') [guide_node, index_node]"
  have p2: "listed_items (Response 200 ''{...}'' (Inr (page_body [directory_entry ''docs'']))) =
              Some ([] @ directory_entry ''docs'' # [])"
    by (simp add: listed_items_def page_body_def)
  have p3: "entries_loop ?env ?base ''main'' ?hdrs (Suc (Suc k)) [] [] ((), [handbook_request []]) =
              (Inr [], ((), [handbook_request []]))"
    by simp
  have p4: "py_get (directory_entry ''docs'') ''type'' (PStr ''unknown'') =
              Inr (PStr ''commit_directory'')"
    by (simp add: directory_entry_def)
  have p5: "py_get (directory_entry ''docs'') ''path'' (PStr []) = Inr (PStr ''docs'')"
    by (simp add: directory_entry_def)
  have p7: "entries_loop ?env ?base ''main'' ?hdrs (Suc (Suc k)) [] ([] @ [?docs]) ((), handbook_log) =
              (Inr [?docs], ((), handbook_log))"
    by simp
  show ?thesis
    by (rule descends.through[OF handbook_root p2 p3 p4 p5 descends.here p7])
qed

subsection \<open>Failure of a listing below the root\<close>

text \<open>
  Claim C2. The fetch goes down from the start path through listings that succeed to a
  directory \<open>parent\<close>, at any depth (the start path itself included). The listing of
  \<open>parent\<close> succeeds, and one of its entries is a directory whose own listing fails: its
  request raises or comes back with a status other than 200, or an exception is raised after
  it. Then \<open>get_repository_codebase\<close> returns success, the node of \<open>parent\<close> occurs in the
  returned tree, and the children of that node are the children that the entries before and
  after the failed one produce: nothing stands for the failed directory, neither a subtree
  nor a marker.
\<close>

theorem failed_directory_omitted:
  assumes "truthy (auth_headers g)"
      and "descends env (base_url_of workspace repo_slug) branch (auth_headers g)
             (Suc (Suc m)) parent Wp (directory_info parent children) W4
             (recursion_limit env) (PStr path) W node W'"
      and "requests_get env (src_request env (base_url_of workspace repo_slug) branch
             (auth_headers g) parent) Wp = (resp, W1)"
      and "listed_items resp = Some (before @ item # rest)"
      and "entries_loop env (base_url_of workspace repo_slug) branch (auth_headers g) (Suc m)
             before [] W1 = (Inr ch, W2)"
      and "py_get item ''type'' (PStr ''unknown'') = Inr (PStr ''commit_directory'')"
      and "py_get item ''path'' (PStr []) = Inr p"
      and "listing_fails env (base_url_of workspace repo_slug) branch (auth_headers g) m p W2 W3"
      and "entries_loop env (base_url_of workspace repo_slug) branch (auth_headers g) (Suc m)
             rest ch W3 = (Inr children, W4)"
  shows "get_repository_codebase env workspace repo_slug branch path g W =
           (Inr (PDict [(''success'', PBool True), (''workspace'', PStr workspace),
                        (''repository'', PStr repo_slug), (''branch'', PStr branch),
                        (''structure'', node)]), g, W')
         \<and> occurs_in (directory_info parent children) node
         \<and> get_directory_structure (Suc (Suc m)) env (base_url_of workspace repo_slug) branch
             (auth_headers g) parent Wp = (directory_info parent children, W4)"
proof -
  let ?base = "base_url_of workspace repo_slug"
  let ?hdrs = "auth_headers g"
  have none: "get_directory_structure (Suc m) env ?base branch ?hdrs p W2 = (PNone, W3)"
    by (rule listing_fails_None[OF assms(8)])
  have "entries_loop env ?base branch ?hdrs (Suc m) (before @ item # rest) [] W1 =
          (Inr children, W4)"
    using assms(5) assms(9)
      directory_attached[where recurse = "get_directory_structure (Suc m) env ?base branch ?hdrs",
        OF assms(6) assms(7) none, of env ?base branch ?hdrs rest ch]
    by (simp add: for_items_append)
  with assms(3,4)
  have parent: "get_directory_structure (Suc (Suc m)) env ?base branch ?hdrs parent Wp =
                  (directory_info parent children, W4)"
    unfolding get_directory_structure_listed by simp
  have t: "truthy (directory_info parent children)"
    by (simp add: directory_info_def)
  from descends_fetch[OF assms(2) parent t]
  have root: "get_directory_structure (recursion_limit env) env ?base branch ?hdrs (PStr path) W =
                (node, W')"
    and tn: "truthy node" and o: "occurs_in (directory_info parent children) node"
    by simp_all
  from fetch_success[OF assms(1) root tn] o parent show ?thesis by simp
qed

theorem failed_directory_omitted_witness:
  "listing_fails (service handbook) (base_url_of ''acme'' ''handbook'') ''main''
     (auth_headers logged_in) 997 (PStr ''docs/img'')
     ((), [handbook_request [], handbook_request ''docs'', handbook_request ''docs/guide.md''])
     ((), [handbook_request [], handbook_request ''docs'', handbook_request ''docs/guide.md'',
           handbook_request ''docs/img''])
   \<and> get_repository_codebase (service handbook) ''acme'' ''handbook'' ''main'' [] logged_in start =
      (Inr (PDict [(''success'', PBool True), (''workspace'', PStr ''acme''),
                   (''repository'', PStr ''handbook''), (''branch'', PStr ''main''),
                   (''structure'',
                    directory_info (PStr [])
                      [directory_info (PStr ''docs'') [guide_node, index_node]])]),
       logged_in, ((), handbook_log))
   \<and> occurs_in (directory_info (PStr ''docs'') [guide_node, index_node])
        (directory_info (PStr []) [directory_info (PStr ''docs'') [guide_node, index_node]])"
proof -
  let ?env = "service handbook"
  let ?base = "base_url_of ''acme'' ''handbook''"
  let ?hdrs = "auth_headers logged_in"
  let ?W2 = "((), [handbook_request [], handbook_request ''docs'', handbook_request ''docs/guide.md''])"
  let ?W3 = "((), [handbook_request [], handbook_request ''docs'', handbook_request ''docs/guide.md'',
           handbook_request ''docs/img''])"
  have h1: "truthy (auth_headers logged_in)"
    by (simp add: logged_in_def)
  have lim: "recursion_limit ?env = Suc (Suc (Suc 997))"
    by (simp add: service_def)
  have h2: "descends ?env ?base ''main'' ?hdrs
     (Suc (Suc 997)) (PStr ''docs'') ((), [handbook_request []])
     (directory_info (PStr ''docs'') [guide_node, index_node]) ((), handbook_log)
     (recursion_limit ?env) (PStr []) start
     (directory_info (PStr []) [directory_info (PStr ''docs'') [guide_node, index_node]])
     ((), handbook_log)"
    unfolding lim by (rule handbook_chain)
  have h4: "listed_items (Response 200 ''{...}'' (Inr (page_body handbook_docs))) =
              Some ([file_entry ''docs/guide.md'' 120] @ directory_entry ''docs/img''
                    # [file_entry ''docs/index.txt'' 7])"
    by (simp add: listed_items_def page_body_def handbook_docs_def)
  have h5: "entries_loop ?env ?base ''main'' ?hdrs (Suc 997) [file_entry ''docs/guide.md'' 120] []
              ((), [handbook_request [], handbook_request ''docs'']) = (Inr [guide_node], ?W2)"
    by (simp add: handbook_defs)
  have h6: "py_get (directory_entry ''docs/img'') ''type'' (PStr ''unknown'') =
              Inr (PStr ''commit_directory'')"
    by (simp add: directory_entry_def)
  have h7: "py_get (directory_entry ''docs/img'') ''path'' (PStr []) = Inr (PStr ''docs/img'')"
    by (simp add: directory_entry_def)
  have h8: "listing_fails ?env ?base ''main'' ?hdrs 997 (PStr ''docs/img'') ?W2 ?W3"
    by (simp add: handbook_defs)
  have h9: "entries_loop ?env ?base ''main'' ?hdrs (Suc 997) [file_entry ''docs/index.txt'' 7]
              [guide_node] ?W3 = (Inr [guide_node, index_node], ((), handbook_log))"
    by (simp add: handbook_defs)
  from failed_directory_omitted[OF h1 h2 handbook_docs_listing h4 h5 h6 h7 h8 h9] h8
  show ?thesis by simp
qed

subsection \<open>Files and their content\<close>

text \<open>
  Claim C7. A file entry whose path ends in none of the extensions of the allow-list gives a
  file node whose \<^verbatim>\<open>content\<close> is \<^verbatim>\<open>None\<close>. The world is left as it was, list of
  issued requests included: no request is made for the file, whatever the remote would
  have answered.
\<close>

theorem unlisted_extension_no_content:
  assumes "py_get item ''type'' (PStr ''unknown'') = Inr (PStr ''commit_file'')"
      and "py_get item ''path'' (PStr []) = Inr (PStr p)"
      and "py_get item ''size'' (PInt 0) = Inr sz"
      and "\<not> list_ex (endswith p) content_extensions"
  shows "structure_item env recurse base_url branch hdrs item children W =
           (Inr (children @ [file_info (PStr p) sz PNone]), W)
         \<and> field (file_info (PStr p) sz PNone) ''content'' = Some PNone"
  using assms by (simp add: structure_item_def field_def file_info_def)

theorem unlisted_extension_no_content_witness:
  "\<not> list_ex (endswith ''logo.png'') content_extensions
   \<and> structure_item (service widgets)
        (get_directory_structure 999 (service widgets) (base_url_of ''acme'' ''widgets'') ''main''
           (auth_headers logged_in))
        (base_url_of ''acme'' ''widgets'') ''main'' (auth_headers logged_in)
        (file_entry ''logo.png'' 2048) [] start =
      (Inr [file_info (PStr ''logo.png'') (PInt 2048) PNone], start)
   \<and> field (file_info (PStr ''logo.png'') (PInt 2048) PNone) ''content'' = Some PNone"
proof -
  have h1: "py_get (file_entry ''logo.png'' 2048) ''type'' (PStr ''unknown'') =
              Inr (PStr ''commit_file'')"
    by (simp add: file_entry_def)
  have h2: "py_get (file_entry ''logo.png'' 2048) ''path'' (PStr []) = Inr (PStr ''logo.png'')"
    by (simp add: file_entry_def)
  have h3: "py_get (file_entry ''logo.png'' 2048) ''size'' (PInt 0) = Inr (PInt 2048)"
    by (simp add: file_entry_def)
  have h4: "\<not> list_ex (endswith ''logo.png'') content_extensions"
    by (simp add: content_extensions_def endswith_def)
  from unlisted_extension_no_content[OF h1 h2 h3 h4, where env = "service widgets"
         and children = "[]" and W = start] h4
  show ?thesis by simp
qed

text \<open>
  In the loop: the node of a file whose content request failed is appended with the error
  string as its content, and the loop goes on with the next entry.
\<close>

lemma failed_content_appended:
  assumes "py_get item ''type'' (PStr ''unknown'') = Inr (PStr ''commit_file'')"
      and "py_get item ''path'' (PStr []) = Inr (PStr p)"
      and "py_get item ''size'' (PInt 0) = Inr sz"
      and "list_ex (endswith p) content_extensions"
      and "requests_get env (src_request env base_url branch hdrs (PStr p)) W = (resp, W1)"
      and "request_failed resp"
  shows "for_items (structure_item env recurse base_url branch hdrs) (item # rest) children W =
         for_items (structure_item env recurse base_url branch hdrs) rest
           (children @ [file_info (PStr p) sz (PStr (content_error env p resp))]) W1"
  using assms get_file_contents_failed[OF assms(5,6)]
  by (simp add: structure_item_def)

text \<open>
  Claim C4. A directory (\<open>parent\<close>, at any depth) is listed with success, and one of its
  entries is a file whose path ends in an extension of the allow-list and whose content
  request raises or comes back with a status other than 200. Then the loop over the entries
  is not left: the node of the parent is returned, the file node is among its children with
  the error string as its \<^verbatim>\<open>content\<close>, and the entries after the file are processed.
  When the parent is the start path, \<open>get_repository_codebase\<close> returns success.
\<close>

text \<open>
  Claim C4. The fetch goes down from the start path through listings that succeed to a
  directory \<open>parent\<close>, at any depth (the start path itself included). The listing of
  \<open>parent\<close> succeeds, and one of its entries is a file whose path ends in an extension of
  the allow-list and whose content request raises or comes back with a status other than
  200. Then \<open>get_repository_codebase\<close> returns success, the file node occurs in the
  returned tree, its \<^verbatim>\<open>content\<close> is the error string that describes the failure, and
  the entries after the file are processed: the children of \<open>parent\<close> are those before
  the file, the file node, and what the remaining entries add.
\<close>

theorem failed_content_inline:
  assumes "truthy (auth_headers g)"
      and "descends env (base_url_of workspace repo_slug) branch (auth_headers g)
             (Suc m) parent Wp (directory_info parent children) W4
             (recursion_limit env) (PStr path) W node W'"
      and "requests_get env (src_request env (base_url_of workspace repo_slug) branch
             (auth_headers g) parent) Wp = (resp0, W1)"
      and "listed_items resp0 = Some (before @ item # rest)"
      and "entries_loop env (base_url_of workspace repo_slug) branch (auth_headers g) m
             before [] W1 = (Inr ch, W2)"
      and "py_get item ''type'' (PStr ''unknown'') = Inr (PStr ''commit_file'')"
      and "py_get item ''path'' (PStr []) = Inr (PStr p)"
      and "py_get item ''size'' (PInt 0) = Inr sz"
      and "list_ex (endswith p) content_extensions"
      and "requests_get env (src_request env (base_url_of workspace repo_slug) branch
             (auth_headers g) (PStr p)) W2 = (resp, W3)"
      and "request_failed resp"
      and "entries_loop env (base_url_of workspace repo_slug) branch (auth_headers g) m rest
             (ch @ [file_info (PStr p) sz (PStr (content_error env p resp))]) W3 =
             (Inr children, W4)"
  shows "get_repository_codebase env workspace repo_slug branch path g W =
           (Inr (PDict [(''success'', PBool True), (''workspace'', PStr workspace),
                        (''repository'', PStr repo_slug), (''branch'', PStr branch),
                        (''structure'', node)]), g, W')
         \<and> occurs_in (file_info (PStr p) sz (PStr (content_error env p resp))) node
         \<and> field (file_info (PStr p) sz (PStr (content_error env p resp))) ''type'' =
             Some (PStr ''file'')
         \<and> field (file_info (PStr p) sz (PStr (content_error env p resp))) ''path'' =
             Some (PStr p)
         \<and> field (file_info (PStr p) sz (PStr (content_error env p resp))) ''content'' =
             Some (PStr (content_error env p resp))
         \<and> get_directory_structure (Suc m) env (base_url_of workspace repo_slug) branch
             (auth_headers g) parent Wp = (directory_info parent children, W4)
         \<and> (\<exists>more. children =
               ch @ file_info (PStr p) sz (PStr (content_error env p resp)) # more)"
proof -
  let ?base = "base_url_of workspace repo_slug"
  let ?hdrs = "auth_headers g"
  let ?file = "file_info (PStr p) sz (PStr (content_error env p resp))"
  have "entries_loop env ?base branch ?hdrs m (before @ item # rest) [] W1 = (Inr children, W4)"
    using assms(5) assms(12)
      failed_content_appended[OF assms(6,7,8,9,10,11),
        of "get_directory_structure m env ?base branch ?hdrs" rest ch]
    by (simp add: for_items_append)
  with assms(3,4)
  have parent: "get_directory_structure (Suc m) env ?base branch ?hdrs parent Wp =
                  (directory_info parent children, W4)"
    unfolding get_directory_structure_listed by simp
  have "\<exists>more. children = (ch @ [?file]) @ more"
    by (rule for_items_appends[OF _ assms(12)]) (rule structure_item_appends)
  then have inc: "\<exists>more. children = ch @ ?file # more" by simp
  then have "?file \<in> set children" by auto
  then have of: "occurs_in ?file (directory_info parent children)" by (rule occurs_in_child)
  have t: "truthy (directory_info parent children)"
    by (simp add: directory_info_def)
  from descends_fetch[OF assms(2) parent t]
  have root: "get_directory_structure (recursion_limit env) env ?base branch ?hdrs (PStr path) W =
                (node, W')"
    and tn: "truthy node" and o: "occurs_in (directory_info parent children) node"
    by simp_all
  from o of have on: "occurs_in ?file node" by (rule occurs_in_trans)
  have f: "field ?file ''type'' = Some (PStr ''file'')" "field ?file ''path'' = Some (PStr p)"
    "field ?file ''content'' = Some (PStr (content_error env p resp))"
    by (simp_all add: field_def file_info_def)
  from fetch_success[OF assms(1) root tn] on f parent inc show ?thesis by simp
qed

theorem failed_content_inline_witness:
  "list_ex (endswith ''docs/guide.md'') content_extensions
   \<and> request_failed (Response 503 ''Service Unavailable'' (Inl (JSONDecodeError ''Expecting value'')))
   \<and> get_repository_codebase (service handbook) ''acme'' ''handbook'' ''main'' [] logged_in start =
      (Inr (PDict [(''success'', PBool True), (''workspace'', PStr ''acme''),
                   (''repository'', PStr ''handbook''), (''branch'', PStr ''main''),
                   (''structure'',
                    directory_info (PStr [])
                      [directory_info (PStr ''docs'') [guide_node, index_node]])]),
       logged_in, ((), handbook_log))
   \<and> occurs_in guide_node
        (directory_info (PStr []) [directory_info (PStr ''docs'') [guide_node, index_node]])
   \<and> field guide_node ''content'' =
        Some (PStr ''Error: Could not fetch file docs/guide.md (Status: 503)'')"
proof -
  let ?env = "service handbook"
  let ?base = "base_url_of ''acme'' ''handbook''"
  let ?hdrs = "auth_headers logged_in"
  let ?resp = "Response 503 ''Service Unavailable'' (Inl (JSONDecodeError ''Expecting value''))"
  let ?W1 = "((), [handbook_request [], handbook_request ''docs''])"
  let ?W3 = "((), [handbook_request [], handbook_request ''docs'', handbook_request ''docs/guide.md''])"
  have h1: "truthy (auth_headers logged_in)"
    by (simp add: logged_in_def)
  have lim: "recursion_limit ?env = Suc (Suc (Suc 997))"
    by (simp add: service_def)
  have h2: "descends ?env ?base ''main'' ?hdrs
     (Suc (Suc 997)) (PStr ''docs'') ((), [handbook_request []])
     (directory_info (PStr ''docs'') [guide_node, index_node]) ((), handbook_log)
     (recursion_limit ?env) (PStr []) start
     (directory_info (PStr []) [directory_info (PStr ''docs'') [guide_node, index_node]])
     ((), handbook_log)"
    unfolding lim by (rule handbook_chain)
  have h4: "listed_items (Response 200 ''{...}'' (Inr (page_body handbook_docs))) =
              Some ([] @ file_entry ''docs/guide.md'' 120
                    # [directory_entry ''docs/img'', file_entry ''docs/index.txt'' 7])"
    by (simp add: listed_items_def page_body_def handbook_docs_def)
  have h5: "entries_loop ?env ?base ''main'' ?hdrs (Suc 997) [] [] ?W1 = (Inr [], ?W1)"
    by simp
  have h6: "py_get (file_entry ''docs/guide.md'' 120) ''type'' (PStr ''unknown'') =
              Inr (PStr ''commit_file'')"
    by (simp add: file_entry_def)
  have h7: "py_get (file_entry ''docs/guide.md'' 120) ''path'' (PStr []) = Inr (PStr ''docs/guide.md'')"
    by (simp add: file_entry_def)
  have h8: "py_get (file_entry ''docs/guide.md'' 120) ''size'' (PInt 0) = Inr (PInt 120)"
    by (simp add: file_entry_def)
  have h9: "list_ex (endswith ''docs/guide.md'') content_extensions"
    by (simp add: content_extensions_def endswith_def)
  have h10: "requests_get ?env (src_request ?env ?base ''main'' ?hdrs (PStr ''docs/guide.md'')) ?W1 =
               (?resp, ?W3)"
    by (simp add: handbook_defs)
  have h11: "request_failed ?resp"
    by (simp add: request_failed_def)
  have msg: "file_info (PStr ''docs/guide.md'') (PInt 120)
               (PStr (content_error ?env ''docs/guide.md'' ?resp)) = guide_node"
    by (simp add: guide_node_def content_error_def str_int_503)
  have h12: "entries_loop ?env ?base ''main'' ?hdrs (Suc k)
               [directory_entry ''docs/img'', file_entry ''docs/index.txt'' 7]
               ([] @ [file_info (PStr ''docs/guide.md'') (PInt 120)
                        (PStr (content_error ?env ''docs/guide.md'' ?resp))]) ?W3 =
             (Inr [guide_node, index_node], ((), handbook_log))" for k
    unfolding msg by (simp add: handbook_defs)
  have err: "content_error ?env ''docs/guide.md'' ?resp =
               ''Error: Could not fetch file docs/guide.md (Status: 503)''"
    by (simp add: content_error_def str_int_503)
  note t = failed_content_inline[OF h1 h2 handbook_docs_listing h4 h5 h6 h7 h8 h9 h10 h11
               h12[of 997], unfolded err, folded guide_node_def]
  from t h9 h11 show ?thesis by blast
qed

subsection \<open>Two fetches from an unchanged remote\<close>

lemma requests_get_unchanged:
  assumes "unchanged_remote env"
  shows "fst (requests_get env req W) = fst (requests_get env req W')"
proof -
  obtain w l where W: "W = (w, l)" by (cases W)
  obtain w' l' where W': "W' = (w', l')" by (cases W')
  from assms have "fst (remote env w req) = fst (remote env w' req)"
    unfolding unchanged_remote_def by blast
  then show ?thesis
    by (cases "remote env w req"; cases "remote env w' req") (simp add: requests_get_def W W')
qed

lemma get_file_contents_unchanged:
  assumes "unchanged_remote env"
  shows "fst (get_file_contents env base_url branch hdrs p W) =
         fst (get_file_contents env base_url branch hdrs p W')"
proof -
  let ?req = "src_request env base_url branch hdrs p"
  obtain resp W1 where a: "requests_get env ?req W = (resp, W1)"
    by (cases "requests_get env ?req W")
  obtain resp' W1' where b: "requests_get env ?req W' = (resp', W1')"
    by (cases "requests_get env ?req W'")
  from requests_get_unchanged[OF assms, of ?req W W'] a b have "resp' = resp" by simp
  with a b show ?thesis
    by (cases resp) (simp_all add: get_file_contents_def)
qed

lemma structure_item_unchanged:
  assumes "unchanged_remote env"
      and "\<And>p W W'. fst (recurse p W) = fst (recurse p W')"
  shows "fst (structure_item env recurse base_url branch hdrs item children W) =
         fst (structure_item env recurse base_url branch hdrs item children W')"
proof (cases "py_get item ''type'' (PStr ''unknown'')")
  case (Inl e)
  then show ?thesis by (simp add: structure_item_def)
next
  case ty: (Inr item_type)
  show ?thesis
  proof (cases "py_get item ''path'' (PStr [])")
    case (Inl e)
    with ty show ?thesis by (simp add: structure_item_def)
  next
    case pa: (Inr item_path)
    consider (isfile) "item_type = PStr ''commit_file''"
      | (isdir) "item_type \<noteq> PStr ''commit_file''" "item_type = PStr ''commit_directory''"
      | (isother) "item_type \<noteq> PStr ''commit_file''" "item_type \<noteq> PStr ''commit_directory''"
      by blast
    then show ?thesis
    proof cases
      case isfile
      show ?thesis
      proof (cases "py_get item ''size'' (PInt 0)")
        case (Inl e)
        with ty pa isfile show ?thesis by (simp add: structure_item_def)
      next
        case sz: (Inr sz)
        show ?thesis
        proof (cases "py_endswith item_path content_extensions")
          case (Inl e)
          with ty pa isfile sz show ?thesis by (simp add: structure_item_def)
        next
          case (Inr fetch)
          obtain c V where a: "get_file_contents env base_url branch hdrs item_path W = (c, V)"
            by (cases "get_file_contents env base_url branch hdrs item_path W")
          obtain c' V' where b: "get_file_contents env base_url branch hdrs item_path W' = (c', V')"
            by (cases "get_file_contents env base_url branch hdrs item_path W'")
          from get_file_contents_unchanged[OF assms(1), of base_url branch hdrs item_path W W'] a b
          have "c' = c" by simp
          with ty pa isfile sz Inr a b show ?thesis
            by (cases fetch) (simp_all add: structure_item_def)
        qed
      qed
    next
      case isdir
      obtain s V where a: "recurse item_path W = (s, V)" by (cases "recurse item_path W")
      obtain s' V' where b: "recurse item_path W' = (s', V')" by (cases "recurse item_path W'")
      from assms(2)[of item_path W W'] a b have "s' = s" by simp
      with ty pa isdir a b show ?thesis by (simp add: structure_item_def)
    next
      case isother
      with ty pa isother show ?thesis by (simp add: structure_item_def)
    qed
  qed
qed

lemma for_items_unchanged:
  assumes "\<And>item acc W W'. fst (body item acc W) = fst (body item acc W')"
  shows "fst (for_items body items acc W) = fst (for_items body items acc W')"
proof (induction items arbitrary: acc W W')
  case Nil
  show ?case by simp
next
  case (Cons item items)
  obtain r W1 where a: "body item acc W = (r, W1)" by (cases "body item acc W")
  obtain r' W1' where b: "body item acc W' = (r', W1')" by (cases "body item acc W'")
  from assms[of item acc W W'] a b have rr: "r' = r" by simp
  show ?case
  proof (cases r)
    case (Inl e)
    with a b rr show ?thesis by simp
  next
    case (Inr acc1)
    with a b rr Cons.IH[of acc1 W1 W1'] show ?thesis by simp
  qed
qed

lemma get_directory_structure_unchanged:
  assumes "unchanged_remote env"
  shows "fst (get_directory_structure n env base_url branch hdrs p W) =
         fst (get_directory_structure n env base_url branch hdrs p W')"
proof (induction n arbitrary: p W W')
  case 0
  show ?case by simp
next
  case (Suc n)
  let ?req = "src_request env base_url branch hdrs p"
  let ?body = "structure_item env (get_directory_structure n env base_url branch hdrs)
                 base_url branch hdrs"
  obtain resp W1 where a: "requests_get env ?req W = (resp, W1)"
    by (cases "requests_get env ?req W")
  obtain resp' W1' where b: "requests_get env ?req W' = (resp', W1')"
    by (cases "requests_get env ?req W'")
  from requests_get_unchanged[OF assms, of ?req W W'] a b have rr: "resp' = resp" by simp
  have body: "\<And>item acc V V'. fst (?body item acc V) = fst (?body item acc V')"
    by (rule structure_item_unchanged[OF assms]) (rule Suc.IH)
  have loop: "\<And>items. fst (for_items ?body items [] W1) = fst (for_items ?body items [] W1')"
    by (rule for_items_unchanged) (rule body)
  show ?case
  proof (cases resp)
    case (Raises e)
    with a b rr show ?thesis by simp
  next
    case (Response status btext js)
    show ?thesis
    proof (cases "status = 200")
      case False
      with a b rr Response show ?thesis by simp
    next
      case True
      show ?thesis
      proof (cases js)
        case (Inl e)
        with a b rr Response True show ?thesis by simp
      next
        case (Inr data)
        show ?thesis
        proof (cases "py_get data ''values'' (PList [])")
          case (Inl e)
          with a b rr Response True Inr show ?thesis by simp
        next
          case vals: (Inr vals)
          show ?thesis
          proof (cases "py_iter vals")
            case (Inl e)
            with a b rr Response True Inr vals show ?thesis by simp
          next
            case items: (Inr items)
            obtain c V where l1: "for_items ?body items [] W1 = (c, V)"
              by (cases "for_items ?body items [] W1")
            obtain c' V' where l2: "for_items ?body items [] W1' = (c', V')"
              by (cases "for_items ?body items [] W1'")
            from loop[of items] l1 l2 have cc: "c' = c" by simp
            from a b rr Response True Inr vals items l1 l2 cc show ?thesis
              by (cases c) simp_all
          qed
        qed
      qed
    qed
  qed
qed

lemma get_repository_codebase_globals:
  "fst (snd (get_repository_codebase env workspace repo_slug branch path g W)) = g"
  by (simp add: get_repository_codebase_def split: prod.splits)

text \<open>The fetch of \<^verbatim>\<open>acme/widgets\<close>, whatever was requested before.\<close>

lemma widgets_structure:
  "get_directory_structure (Suc (Suc n)) (service widgets) (base_url_of ''acme'' ''widgets'')
     ''main'' (auth_headers logged_in) (PStr []) ((), l) =
      (directory_info (PStr [])
                      [file_info (PStr ''README.MD'') (PInt 9) PNone,
                       file_info (PStr ''main.py'') (PInt 8) (PStr ''print(1)''),
                       file_info (PStr ''logo.png'') (PInt 2048) PNone,
                       file_info (PStr ''notes.txt'') (PInt 5)
                         (PStr ''Error: Could not fetch file notes.txt (Status: 500)'')],
       ((), l @ [widgets_request [], widgets_request ''main.py'', widgets_request ''src'',
             widgets_request ''notes.txt'']))"
  by (simp add: scenario_defs)

lemma widgets_fetch:
  "get_repository_codebase (service widgets) ''acme'' ''widgets'' ''main'' [] logged_in ((), l) =
      (Inr (PDict [(''success'', PBool True), (''workspace'', PStr ''acme''),
                   (''repository'', PStr ''widgets''), (''branch'', PStr ''main''),
                   (''structure'', directory_info (PStr [])
                      [file_info (PStr ''README.MD'') (PInt 9) PNone,
                       file_info (PStr ''main.py'') (PInt 8) (PStr ''print(1)''),
                       file_info (PStr ''logo.png'') (PInt 2048) PNone,
                       file_info (PStr ''notes.txt'') (PInt 5)
                         (PStr ''Error: Could not fetch file notes.txt (Status: 500)'')])]),
       logged_in,
       ((), l @ [widgets_request [], widgets_request ''main.py'', widgets_request ''src'',
             widgets_request ''notes.txt'']))"
proof -
  have lim: "recursion_limit (service widgets) = Suc (Suc 998)"
    by (simp add: service_def)
  have t: "truthy (auth_headers logged_in)"
    by (simp add: logged_in_def)
  show ?thesis
    unfolding get_repository_codebase_def lim widgets_structure
    using t by (simp add: directory_info_def)
qed

text \<open>
  Claim C8. Against an unchanged remote (every request gets the same answer at every
  moment), a second call of \<open>get_repository_codebase\<close> with the same arguments, made in the
  world and with the global that the first call left, returns the same result as the first:
  the same tree, children in the same order, same contents.
\<close>

theorem successive_fetches_equal:
  assumes "unchanged_remote env"
      and "get_repository_codebase env workspace repo_slug branch path g W = (r1, g1, W1)"
      and "get_repository_codebase env workspace repo_slug branch path g1 W1 = (r2, g2, W2)"
  shows "r1 = r2"
proof -
  from assms(2) get_repository_codebase_globals[of env workspace repo_slug branch path g W]
  have g1: "g1 = g" by simp
  let ?gds = "get_directory_structure (recursion_limit env) env (base_url_of workspace repo_slug)
                branch (auth_headers g) (PStr path)"
  have "fst (?gds W) = fst (?gds W1)"
    by (rule get_directory_structure_unchanged[OF assms(1)])
  then have "fst (get_repository_codebase env workspace repo_slug branch path g W) =
        fst (get_repository_codebase env workspace repo_slug branch path g W1)"
    by (cases "?gds W"; cases "?gds W1") (simp add: get_repository_codebase_def)
  with assms(2,3) g1 show ?thesis by simp
qed

theorem successive_fetches_equal_witness:
  "unchanged_remote (service widgets)
   \<and> fst (get_repository_codebase (service widgets) ''acme'' ''widgets'' ''main'' [] logged_in start)
     = fst (get_repository_codebase (service widgets) ''acme'' ''widgets'' ''main'' [] logged_in
         ((), [widgets_request [], widgets_request ''main.py'', widgets_request ''src'',
               widgets_request ''notes.txt'']))"
proof -
  have h1: "unchanged_remote (service widgets)"
    by (simp add: unchanged_remote_def service_def)
  note a = widgets_fetch[of "[]"]
  note b = widgets_fetch[of "[widgets_request [], widgets_request ''main.py'', widgets_request ''src'',
               widgets_request ''notes.txt'']"]
  from successive_fetches_equal[OF h1 a[simplified, folded start_def] b] h1
  show ?thesis by (simp add: start_def a b)
qed

subsection \<open>Upper-case extensions\<close>

text \<open>
  Claim C3, which the code does not meet. The root of \<^verbatim>\<open>acme/widgets\<close> lists the
  file \<^verbatim>\<open>README.MD\<close>. \<open>get_directory_structure\<close> tests the path as it is written, so
  the node of the file has no content and no request is made for it, although the
  lower-cased path ends in \<^verbatim>\<open>.md\<close>. The filter of \<open>get_repository_files_list\<close>
  lower-cases the path first and keeps the same file.
\<close>

theorem uppercase_extension_not_fetched:
  "get_repository_codebase (service widgets) ''acme'' ''widgets'' ''main'' [] logged_in start =
      (Inr (PDict [(''success'', PBool True), (''workspace'', PStr ''acme''),
                   (''repository'', PStr ''widgets''), (''branch'', PStr ''main''),
                   (''structure'', directory_info (PStr [])
                      [file_info (PStr ''README.MD'') (PInt 9) PNone,
                       file_info (PStr ''main.py'') (PInt 8) (PStr ''print(1)''),
                       file_info (PStr ''logo.png'') (PInt 2048) PNone,
                       file_info (PStr ''notes.txt'') (PInt 5)
                         (PStr ''Error: Could not fetch file notes.txt (Status: 500)'')])]),
       logged_in,
       ((), [widgets_request [], widgets_request ''main.py'', widgets_request ''src'',
             widgets_request ''notes.txt'']))
   \<and> map lower_char ''README.MD'' = ''readme.md''
   \<and> list_ex (endswith ''readme.md'') content_extensions
   \<and> code_files_of [PStr ''README.MD''] = Inr [PStr ''README.MD'']"
proof -
  have l: "map lower_char ''README.MD'' = ''readme.md''"
    by code_simp
  have e: "list_ex (endswith ''readme.md'') content_extensions"
    by (simp add: content_extensions_def endswith_def)
  have c: "code_files_of [PStr ''README.MD''] = Inr [PStr ''README.MD'']"
    by code_simp
  from widgets_fetch[of "[]"] l e c show ?thesis
    by (simp add: start_def)
qed

subsection \<open>Authentication\<close>

lemma authenticate_user_cases:
  assumes "authenticate_user env email g W = (res, g1, W1)"
  shows "\<exists>r. res = Inr r \<and>
           (field r ''success'' = Some (PBool True) \<and> truthy (auth_headers g1)
            \<or> field r ''success'' = Some (PBool False))"
  using assms
  by (auto simp add: authenticate_user_def Let_def field_def authentication_exception_def
        get_headers_with_email_def
      split: if_splits prod.splits response.splits sum.splits)

lemma ensure_authenticated_set:
  "truthy (auth_headers g) \<Longrightarrow> ensure_authenticated env g W = (Inr (), g, W)"
  by (simp add: ensure_authenticated_def)

lemma ensure_authenticated_unset:
  assumes "\<not> truthy (auth_headers g)" and "BITBUCKET_EMAIL env \<noteq> []"
      and "authenticate_user env PNone g W = (Inr r, g1, W1)"
  shows "ensure_authenticated env g W =
           (if field r ''success'' = Some (PBool True) then (Inr (), g1, W1)
            else (Inl (Inr r), g1, W1))"
proof -
  from authenticate_user_cases[OF assms(3)]
  consider "field r ''success'' = Some (PBool True)" | "field r ''success'' = Some (PBool False)"
    by auto
  then show ?thesis
  proof cases
    case 1
    then obtain kvs where r: "r = PDict kvs" by (cases r) (simp_all add: field_def)
    with 1 assms show ?thesis by (simp add: ensure_authenticated_def field_def)
  next
    case 2
    then obtain kvs where r: "r = PDict kvs" by (cases r) (simp_all add: field_def)
    with 2 assms show ?thesis by (simp add: ensure_authenticated_def field_def)
  qed
qed

lemma ensure_authenticated_stop:
  assumes "ensure_authenticated env g W = (Inl x, g1, W1)"
  shows "\<exists>r. x = Inr r \<and> is_envelope r"
proof (cases "truthy (auth_headers g)")
  case True
  with assms show ?thesis by (simp add: ensure_authenticated_def)
next
  case False
  show ?thesis
  proof (cases "BITBUCKET_EMAIL env = []")
    case True
    with False assms show ?thesis
      by (auto simp add: ensure_authenticated_def is_envelope_def field_def)
  next
    case ne: False
    obtain res g2 W2 where a: "authenticate_user env PNone g W = (res, g2, W2)"
      by (cases "authenticate_user env PNone g W")
    from authenticate_user_cases[OF a] obtain r where r: "res = Inr r"
      and s: "field r ''success'' = Some (PBool True) \<or> field r ''success'' = Some (PBool False)"
      by blast
    from ensure_authenticated_unset[OF False ne a[unfolded r]] assms s
    show ?thesis by (auto simp add: is_envelope_def split: if_splits)
  qed
qed

lemma authenticate_configured:
  assumes "BITBUCKET_EMAIL env \<noteq> []"
  shows "\<exists>r g1 W1. authenticate_user env PNone g W = (Inr r, g1, W1)
           \<and> snd W1 = snd W @ [user_request (get_headers_with_email env (PStr (BITBUCKET_EMAIL env)))]"
proof -
  let ?req = "user_request (get_headers_with_email env (PStr (BITBUCKET_EMAIL env)))"
  obtain w l where W: "W = (w, l)" by (cases W)
  obtain resp w1 where r: "remote env w ?req = (resp, w1)" by (cases "remote env w ?req")
  have q: "requests_get env ?req W = (resp, (w1, l @ [?req]))"
    by (simp add: requests_get_def W r)
  obtain res g1 W1 where a: "authenticate_user env PNone g W = (res, g1, W1)"
    by (cases "authenticate_user env PNone g W")
  from authenticate_user_cases[OF a] obtain r where res: "res = Inr r" by blast
  from a assms q have "W1 = (w1, l @ [?req])"
    by (auto simp add: authenticate_user_def Let_def split: response.splits sum.splits if_splits)
  with a res W show ?thesis by simp
qed

lemma authenticated_after_success:
  assumes "authenticate_user env email g W = (Inr r, g1, W1)"
      and "field r ''success'' = Some (PBool True)"
  shows "truthy (auth_headers g1)"
  using authenticate_user_cases[OF assms(1)] assms(2) by auto

text \<open>
  Claim C10. With \<^verbatim>\<open>auth_headers\<close> unset, \<open>get_repository_codebase\<close> returns the
  failure \<^verbatim>\<open>Not authenticated\<close> and leaves the global and the world as they were: it
  makes no request, whether an email is configured or not. With an email configured, each of
  \<open>get_workspaces\<close>, \<open>get_repositories\<close>, \<open>get_specific_file_content\<close> and
  \<open>get_repository_files_list\<close> begins with the request of \<open>authenticate_user\<close>; when
  that fails the tool returns the result of the authentication, and when it succeeds the
  tool goes on as if it had been called with the headers in place.
\<close>

theorem codebase_requires_prior_authentication:
  assumes "\<not> truthy (auth_headers g)"
  shows "get_repository_codebase env workspace repo_slug branch path g W =
           (Inr (PDict [(''success'', PBool False),
                        (''error'', PStr ''Not authenticated. Please authenticate first.'')]), g, W)
       \<and> (BITBUCKET_EMAIL env \<noteq> [] \<longrightarrow>
           (\<exists>r g1 W1. authenticate_user env PNone g W = (Inr r, g1, W1)
              \<and> snd W1 = snd W @ [user_request (get_headers_with_email env (PStr (BITBUCKET_EMAIL env)))]
              \<and> get_workspaces env g W =
                  (if field r ''success'' = Some (PBool True) then get_workspaces env g1 W1
                   else (Inr r, g1, W1))
              \<and> get_repositories env ws page_size g W =
                  (if field r ''success'' = Some (PBool True)
                   then get_repositories env ws page_size g1 W1
                   else Some (Inr r, g1, W1))
              \<and> get_specific_file_content env workspace repo_slug file_path branch g W =
                  (if field r ''success'' = Some (PBool True)
                   then get_specific_file_content env workspace repo_slug file_path branch g1 W1
                   else (Inr r, g1, W1))
              \<and> get_repository_files_list env workspace repo_slug branch path g W =
                  (if field r ''success'' = Some (PBool True)
                   then get_repository_files_list env workspace repo_slug branch path g1 W1
                   else (Inr r, g1, W1))))"
proof (intro conjI impI)
  show "get_repository_codebase env workspace repo_slug branch path g W =
           (Inr (PDict [(''success'', PBool False),
                        (''error'', PStr ''Not authenticated. Please authenticate first.'')]), g, W)"
    using assms by (simp add: get_repository_codebase_def)
next
  assume ne: "BITBUCKET_EMAIL env \<noteq> []"
  from authenticate_configured[OF ne, of g W] obtain r g1 W1 where
    a: "authenticate_user env PNone g W = (Inr r, g1, W1)"
    and l: "snd W1 = snd W @ [user_request (get_headers_with_email env (PStr (BITBUCKET_EMAIL env)))]"
    by blast
  note e = ensure_authenticated_unset[OF assms ne a]
  have s: "field r ''success'' = Some (PBool True) \<Longrightarrow>
             ensure_authenticated env g1 W1 = (Inr (), g1, W1)"
    using authenticated_after_success[OF a] by (simp add: ensure_authenticated_set)
  have 1: "get_workspaces env g W =
                  (if field r ''success'' = Some (PBool True) then get_workspaces env g1 W1
                   else (Inr r, g1, W1))"
    using e s by (simp add: get_workspaces_def)
  have 2: "get_repositories env ws page_size g W =
                  (if field r ''success'' = Some (PBool True)
                   then get_repositories env ws page_size g1 W1
                   else Some (Inr r, g1, W1))"
    using e s by (simp add: get_repositories_def)
  have 3: "get_specific_file_content env workspace repo_slug file_path branch g W =
                  (if field r ''success'' = Some (PBool True)
                   then get_specific_file_content env workspace repo_slug file_path branch g1 W1
                   else (Inr r, g1, W1))"
    using e s by (simp add: get_specific_file_content_def)
  have 4: "get_repository_files_list env workspace repo_slug branch path g W =
                  (if field r ''success'' = Some (PBool True)
                   then get_repository_files_list env workspace repo_slug branch path g1 W1
                   else (Inr r, g1, W1))"
    using e s by (simp add: get_repository_files_list_def)
  from a l 1 2 3 4 show "\<exists>r g1 W1. authenticate_user env PNone g W = (Inr r, g1, W1)
              \<and> snd W1 = snd W @ [user_request (get_headers_with_email env (PStr (BITBUCKET_EMAIL env)))]
              \<and> get_workspaces env g W =
                  (if field r ''success'' = Some (PBool True) then get_workspaces env g1 W1
                   else (Inr r, g1, W1))
              \<and> get_repositories env ws page_size g W =
                  (if field r ''success'' = Some (PBool True)
                   then get_repositories env ws page_size g1 W1
                   else Some (Inr r, g1, W1))
              \<and> get_specific_file_content env workspace repo_slug file_path branch g W =
                  (if field r ''success'' = Some (PBool True)
                   then get_specific_file_content env workspace repo_slug file_path branch g1 W1
                   else (Inr r, g1, W1))
              \<and> get_repository_files_list env workspace repo_slug branch path g W =
                  (if field r ''success'' = Some (PBool True)
                   then get_repository_files_list env workspace repo_slug branch path g1 W1
                   else (Inr r, g1, W1))"
    by blast
qed

lemma headers_dev:
  "get_headers_with_email (service respond) (PStr ''dev@example.com'') = auth_headers logged_in"
  by code_simp

lemma unreachable_authentication:
  "authenticate_user (service unreachable) PNone initial_globals start =
     (Inr (PDict [(''success'', PBool False),
                  (''error'', PStr ''Exception during authentication: Connection refused'')]),
      initial_globals, ((), [user_request (auth_headers logged_in)]))"
proof -
  have e: "BITBUCKET_EMAIL (service unreachable) = ''dev@example.com''"
    by (simp add: service_def)
  have r: "remote (service unreachable) = (\<lambda>w req. (unreachable req, w))"
    by (simp add: service_def)
  have x: "exn_str (service unreachable) (RequestException ''Connection refused'') = ''Connection refused''"
    by (simp add: service_def plain_exn_str_def)
  show ?thesis
    by (simp add: authenticate_user_def e headers_dev requests_get_def r unreachable_def start_def
          authentication_exception_def x Let_def)
qed

theorem codebase_requires_prior_authentication_witness:
  "\<not> truthy (auth_headers initial_globals)
   \<and> BITBUCKET_EMAIL (service unreachable) \<noteq> []
   \<and> get_repository_codebase (service unreachable) ''acme'' ''widgets'' ''main'' [] initial_globals start =
       (Inr (PDict [(''success'', PBool False),
                    (''error'', PStr ''Not authenticated. Please authenticate first.'')]),
        initial_globals, start)
   \<and> get_workspaces (service unreachable) initial_globals start =
       (Inr (PDict [(''success'', PBool False),
                  (''error'', PStr ''Exception during authentication: Connection refused'')]),
        initial_globals, ((), [user_request (auth_headers logged_in)]))"
proof -
  have h1: "\<not> truthy (auth_headers initial_globals)"
    by (simp add: initial_globals_def)
  have h2: "BITBUCKET_EMAIL (service unreachable) \<noteq> []"
    by (simp add: service_def)
  from codebase_requires_prior_authentication[OF h1, of "service unreachable" "''acme''" "''widgets''"
         "''main''" "[]" start] h1 h2 unreachable_authentication
  show ?thesis by (auto simp add: field_def)
qed

text \<open>
  The part of claim C9 that holds: \<open>authenticate_user\<close> changes the global only after a
  response of status 200 whose body was parsed.
\<close>

lemma authenticate_user_changes_globals:
  assumes "authenticate_user env email g W = (res, g1, W1)" and "g1 \<noteq> g"
  shows "\<exists>hdrs btext data. requests_get env (user_request hdrs) W =
            (Response 200 btext (Inr data), W1) \<and> g1 = g\<lparr>auth_headers := hdrs\<rparr>"
  using assms
  by (auto simp add: authenticate_user_def Let_def
      split: if_splits prod.splits response.splits sum.splits)

text \<open>
  Claim C9, which the code does not meet. The user endpoint answers 200 with a user object
  that has no \<^verbatim>\<open>username\<close>. The global is assigned first; building the message
  then raises \<^verbatim>\<open>KeyError\<close>, the handler returns a failure, and \<^verbatim>\<open>auth_headers\<close>,
  which was \<^verbatim>\<open>None\<close>, holds the new headers.
\<close>

theorem failed_authentication_stores_headers:
  "authenticate_user (service nameless_user) (PStr ''dev@example.com'') initial_globals start =
     (Inr (PDict [(''success'', PBool False),
                  (''error'', PStr (''Exception during authentication: ''
                                     @ [CHR 0x27] @ ''username'' @ [CHR 0x27]))]),
      \<lparr>auth_headers = PDict [(''Authorization'', PStr ''Basic ZGV2QGV4YW1wbGUuY29tOnRva2Vu'')]\<rparr>,
      ((), [user_request (PDict [(''Authorization'', PStr ''Basic ZGV2QGV4YW1wbGUuY29tOnRva2Vu'')])]))
   \<and> auth_headers initial_globals = PNone"
proof -
  have r: "remote (service nameless_user) = (\<lambda>w req. (nameless_user req, w))"
    by (simp add: service_def)
  have x: "exn_str (service nameless_user) (KeyError ''username'') = [CHR 0x27] @ ''username'' @ [CHR 0x27]"
    by (simp add: service_def plain_exn_str_def)
  show ?thesis
    using headers_dev[of nameless_user]
    by (simp add: authenticate_user_def requests_get_def r nameless_user_def start_def
          authentication_exception_def x Let_def user_request_def initial_globals_def logged_in_def)
qed

subsection \<open>Pages of repositories\<close>

lemma repositories_page_returns_envelope:
  assumes "repositories_page env hdrs next_url prms all_repos W = (Inl (Inr r), W1)"
  shows "is_envelope r"
  using assms
  by (auto simp add: repositories_page_def is_envelope_def field_def
      split: prod.splits response.splits sum.splits if_splits)

lemma repositories_loop_envelope:
  assumes "repositories_loop env hdrs next_url prms all_repos W = Some y"
  shows "case fst y of Inl e \<Rightarrow> True | Inr r \<Rightarrow> is_envelope r"
proof (rule repositories_loop.raw_induct
         [where P = "\<lambda>env hdrs next_url prms all_repos W y.
                       case fst y of Inl e \<Rightarrow> True | Inr r \<Rightarrow> is_envelope r", OF _ assms])
  fix loop env hdrs next_url prms all_repos and W :: "'a world" and y
  assume IH: "\<And>env hdrs next_url prms all_repos W y.
                loop env hdrs next_url prms all_repos W = Some y \<Longrightarrow>
                (case fst y of Inl e \<Rightarrow> True | Inr r \<Rightarrow> is_envelope r)"
    and step: "(if truthy next_url
                then case repositories_page env hdrs next_url prms all_repos W of
                       (Inl r, W1) \<Rightarrow> Some (r, W1)
                     | (Inr (nxt, all_repos1), W1) \<Rightarrow> loop env hdrs nxt (PDict []) all_repos1 W1
                else Some (Inr (PDict [(''success'', PBool True), (''repositories'', PList all_repos),
                                       (''count'', PInt (int (length all_repos)))]), W)) = Some y"
  show "case fst y of Inl e \<Rightarrow> True | Inr r \<Rightarrow> is_envelope r"
  proof (cases "truthy next_url")
    case False
    with step show ?thesis by (auto simp add: is_envelope_def field_def)
  next
    case True
    obtain s W1 where pg: "repositories_page env hdrs next_url prms all_repos W = (s, W1)"
      by (cases "repositories_page env hdrs next_url prms all_repos W")
    show ?thesis
    proof (cases s)
      case (Inl r)
      with step True pg have y: "y = (r, W1)" by simp
      show ?thesis
      proof (cases r)
        case (Inl e)
        with y show ?thesis by simp
      next
        case (Inr d)
        with pg \<open>s = Inl r\<close>
          repositories_page_returns_envelope[of env hdrs next_url prms all_repos W d W1]
        have "is_envelope d" by simp
        with y Inr show ?thesis by simp
      qed
    next
      case (Inr c)
      obtain nxt all1 where c: "c = (nxt, all1)" by (cases c)
      with step True pg Inr have "loop env hdrs nxt (PDict []) all1 W1 = Some y" by simp
      then show ?thesis by (rule IH)
    qed
  qed
qed

lemma ends_within_returns:
  assumes "ends_within n env hdrs next_url prms all_repos W"
  shows "repositories_loop env hdrs next_url prms all_repos W \<noteq> None"
  using assms
proof (induction n arbitrary: next_url prms all_repos W)
  case 0
  then show ?case by (subst repositories_loop.simps) simp
next
  case (Suc n)
  show ?case
  proof (cases "truthy next_url")
    case False
    then show ?thesis by (subst repositories_loop.simps) simp
  next
    case True
    obtain s W1 where pg: "repositories_page env hdrs next_url prms all_repos W = (s, W1)"
      by (cases "repositories_page env hdrs next_url prms all_repos W")
    show ?thesis
    proof (cases s)
      case (Inl r)
      with True pg show ?thesis by (subst repositories_loop.simps) simp
    next
      case (Inr c)
      obtain nxt all1 where c: "c = (nxt, all1)" by (cases c)
      with Suc.prems True pg Inr have "ends_within n env hdrs nxt (PDict []) all1 W1" by simp
      from Suc.IH[OF this] have "repositories_loop env hdrs nxt (PDict []) all1 W1 \<noteq> None" .
      with True pg Inr c show ?thesis by (subst repositories_loop.simps) simp
    qed
  qed
qed

lemma endless_pages_turn:
  "repositories_page (service endless_pages) hdrs next_url prms all_repos W =
     (Inr (PStr ''https://api.bitbucket.org/2.0/repositories?page=2'', all_repos),
      (fst W, snd W @ [\<lparr>url = next_url, headers = hdrs, params = prms\<rparr>]))"
  by (cases W) (simp add: repositories_page_def requests_get_def service_def endless_pages_def)

lemma endless_pages_never_returns:
  assumes "repositories_loop env hdrs next_url prms all_repos W = Some y"
  shows "env = service endless_pages \<longrightarrow> truthy next_url \<longrightarrow> False"
proof (rule repositories_loop.raw_induct
         [where P = "\<lambda>env hdrs next_url prms all_repos W y.
                       env = service endless_pages \<longrightarrow> truthy next_url \<longrightarrow> False", OF _ assms])
  fix loop env hdrs next_url prms all_repos and W :: "unit world" and y
  assume IH: "\<And>env hdrs next_url prms all_repos W y.
                loop env hdrs next_url prms all_repos W = Some y \<Longrightarrow>
                env = service endless_pages \<longrightarrow> truthy next_url \<longrightarrow> False"
    and step: "(if truthy next_url
                then case repositories_page env hdrs next_url prms all_repos W of
                       (Inl r, W1) \<Rightarrow> Some (r, W1)
                     | (Inr (nxt, all_repos1), W1) \<Rightarrow> loop env hdrs nxt (PDict []) all_repos1 W1
                else Some (Inr (PDict [(''success'', PBool True), (''repositories'', PList all_repos),
                                       (''count'', PInt (int (length all_repos)))]), W)) = Some y"
  show "env = service endless_pages \<longrightarrow> truthy next_url \<longrightarrow> False"
  proof (intro impI)
    assume e: "env = service endless_pages" and t: "truthy next_url"
    from step e t endless_pages_turn[of hdrs next_url prms all_repos W]
    have "loop env hdrs (PStr ''https://api.bitbucket.org/2.0/repositories?page=2'') (PDict [])
            all_repos (fst W, snd W @ [\<lparr>url = next_url, headers = hdrs, params = prms\<rparr>]) = Some y"
      by simp
    from IH[OF this] e show False by simp
  qed
qed

lemma serves_pages_loop:
  assumes "serves_pages env hdrs next_url prms W pages"
  shows "repositories_loop env hdrs next_url prms all_repos W =
           Some (Inr (PDict [(''success'', PBool True),
                             (''repositories'', PList (all_repos @ concat pages)),
                             (''count'', PInt (int (length (all_repos @ concat pages))))]),
                 world_after_pages env hdrs next_url prms W pages)"
  using assms
proof (induction pages arbitrary: next_url prms all_repos W)
  case Nil
  then show ?case by simp
next
  case (Cons page pages)
  let ?req = "\<lparr>url = next_url, headers = hdrs, params = prms\<rparr>"
  from Cons.prems have t: "truthy next_url" by simp
  from Cons.prems obtain status btext kvs W1 where
    rq: "requests_get env ?req W = (Response status btext (Inr (PDict kvs)), W1)"
    by (auto split: prod.splits response.splits sum.splits pyval.splits)
  from Cons.prems rq have st: "status = 200" and vs: "map_of kvs ''values'' = Some (PList page)"
    by simp_all
  show ?case
  proof (cases "map_of kvs ''next''")
    case None
    with Cons.prems rq have e: "pages = []" by simp
    have pg: "repositories_page env hdrs next_url prms all_repos W = (Inr (PNone, all_repos @ page), W1)"
      using rq st vs None by (simp add: repositories_page_def)
    have "repositories_loop env hdrs PNone (PDict []) (all_repos @ page) W1 =
            Some (Inr (PDict [(''success'', PBool True),
                             (''repositories'', PList (all_repos @ page)),
                             (''count'', PInt (int (length (all_repos @ page))))]), W1)"
      by (subst repositories_loop.simps) simp
    with t pg e rq None show ?thesis
      by (subst repositories_loop.simps) simp
  next
    case (Some nxt)
    with Cons.prems rq have ne: "pages \<noteq> []" and sv: "serves_pages env hdrs nxt (PDict []) W1 pages"
      by simp_all
    have pg: "repositories_page env hdrs next_url prms all_repos W = (Inr (nxt, all_repos @ page), W1)"
      using rq st vs Some by (simp add: repositories_page_def)
    from Cons.IH[OF sv, of "all_repos @ page"] t pg rq Some show ?thesis
      by (subst repositories_loop.simps) simp
  qed
qed

text \<open>
  Claim C5. When the remote serves a chain of pages, each with status 200 and each but the
  last naming the next page, \<open>get_repositories\<close> requests them one after the other until
  the page without \<^verbatim>\<open>next\<close>, and returns the concatenation of their \<^verbatim>\<open>values\<close>
  in the order of the pages, with its length as \<^verbatim>\<open>count\<close>. The witness is the case of
  three pages of two entries: six entries in page order, and a count of 6.
\<close>

theorem repositories_follow_next:
  assumes "truthy (auth_headers g)"
      and "serves_pages env (auth_headers g) (repositories_url env workspace)
             (first_page_params page_size) W pages"
  shows "get_repositories env workspace page_size g W =
           Some (Inr (PDict [(''success'', PBool True),
                             (''repositories'', PList (concat pages)),
                             (''count'', PInt (int (length (concat pages))))]),
                 g,
                 world_after_pages env (auth_headers g) (repositories_url env workspace)
                   (first_page_params page_size) W pages)"
  using serves_pages_loop[OF assms(2), of "[]"] ensure_authenticated_set[OF assms(1), of env W]
  by (simp add: get_repositories_def)

theorem repositories_follow_next_witness:
  "truthy (auth_headers logged_in)
   \<and> serves_pages (service three_pages) (auth_headers logged_in)
        (repositories_url (service three_pages) (PStr ''acme'')) (first_page_params 50) start
        [[repo_entry ''r1'', repo_entry ''r2''], [repo_entry ''r3'', repo_entry ''r4''],
         [repo_entry ''r5'', repo_entry ''r6'']]
   \<and> get_repositories (service three_pages) (PStr ''acme'') 50 logged_in start =
        Some (Inr (PDict [(''success'', PBool True),
                          (''repositories'', PList six_repositories),
                          (''count'', PInt 6)]),
              logged_in,
              ((), [acme_page [] (first_page_params 50), acme_page ''?page=2'' (PDict []),
                    acme_page ''?page=3'' (PDict [])]))"
proof -
  let ?pages = "[[repo_entry ''r1'', repo_entry ''r2''], [repo_entry ''r3'', repo_entry ''r4''],
         [repo_entry ''r5'', repo_entry ''r6'']]"
  have h1: "truthy (auth_headers logged_in)"
    by (simp add: logged_in_def)
  have h2: "serves_pages (service three_pages) (auth_headers logged_in)
        (repositories_url (service three_pages) (PStr ''acme'')) (first_page_params 50) start ?pages"
    by (simp add: pages_defs)
  have w: "world_after_pages (service three_pages) (auth_headers logged_in)
        (repositories_url (service three_pages) (PStr ''acme'')) (first_page_params 50) start ?pages
        = ((), [acme_page [] (first_page_params 50), acme_page ''?page=2'' (PDict []),
                    acme_page ''?page=3'' (PDict [])])"
    by (simp add: pages_defs)
  from repositories_follow_next[OF h1 h2] h1 h2 w show ?thesis
    by (simp add: six_repositories_def)
qed

subsection \<open>Result envelopes\<close>

lemma authenticate_user_envelope: "returns_envelope (authenticate_user env email g W)"
proof -
  obtain res g1 W1 where a: "authenticate_user env email g W = (res, g1, W1)"
    by (cases "authenticate_user env email g W")
  from authenticate_user_cases[OF a] show ?thesis
    by (auto simp add: a returns_envelope_def is_envelope_def)
qed

lemma workspaces_of_response_envelope:
  "workspaces_of_response resp = Inr r \<Longrightarrow> is_envelope r"
  by (auto simp add: workspaces_of_response_def is_envelope_def field_def
      split: response.splits sum.splits if_splits)

lemma get_workspaces_envelope: "returns_envelope (get_workspaces env g W)"
proof -
  obtain x g1 W1 where a: "ensure_authenticated env g W = (x, g1, W1)"
    by (cases "ensure_authenticated env g W")
  show ?thesis
  proof (cases x)
    case (Inl y)
    with a ensure_authenticated_stop[of env g W y g1 W1] show ?thesis
      by (auto simp add: get_workspaces_def returns_envelope_def)
  next
    case (Inr u)
    obtain resp W2 where b: "requests_get env (workspaces_request (auth_headers g1)) W1 = (resp, W2)"
      by (cases "requests_get env (workspaces_request (auth_headers g1)) W1")
    show ?thesis
    proof (cases "workspaces_of_response resp")
      case (Inl e)
      with a Inr b show ?thesis
        by (simp add: get_workspaces_def returns_envelope_def is_envelope_def field_def)
    next
      case r: (Inr r)
      with a Inr b workspaces_of_response_envelope[OF r] show ?thesis
        by (simp add: get_workspaces_def returns_envelope_def)
    qed
  qed
qed

lemma get_repository_codebase_envelope:
  "returns_envelope (get_repository_codebase env workspace repo_slug branch path g W)"
  by (simp add: get_repository_codebase_def returns_envelope_def is_envelope_def field_def
      split: prod.splits)

lemma get_specific_file_content_envelope:
  "returns_envelope (get_specific_file_content env workspace repo_slug file_path branch g W)"
proof -
  obtain x g1 W1 where a: "ensure_authenticated env g W = (x, g1, W1)"
    by (cases "ensure_authenticated env g W")
  show ?thesis
  proof (cases x)
    case (Inl y)
    with a ensure_authenticated_stop[of env g W y g1 W1] show ?thesis
      by (auto simp add: get_specific_file_content_def returns_envelope_def)
  next
    case (Inr u)
    with a show ?thesis
      by (simp add: get_specific_file_content_def returns_envelope_def is_envelope_def field_def
          split: prod.splits response.splits)
  qed
qed

lemma get_repository_files_list_envelope:
  "returns_envelope (get_repository_files_list env workspace repo_slug branch path g W)"
proof -
  obtain x g1 W1 where a: "ensure_authenticated env g W = (x, g1, W1)"
    by (cases "ensure_authenticated env g W")
  show ?thesis
  proof (cases x)
    case (Inl y)
    with a ensure_authenticated_stop[of env g W y g1 W1] show ?thesis
      by (auto simp add: get_repository_files_list_def returns_envelope_def)
  next
    case (Inr u)
    with a show ?thesis
      by (simp add: get_repository_files_list_def returns_envelope_def is_envelope_def field_def
          split: prod.splits sum.splits)
  qed
qed

lemma save_codebase_to_file_envelope:
  "returns_envelope (save_codebase_to_file env workspace repo_slug filename branch path g W)"
proof -
  obtain res g1 W1 where a:
    "get_repository_codebase env workspace repo_slug branch path g W = (res, g1, W1)"
    by (cases "get_repository_codebase env workspace repo_slug branch path g W")
  from get_repository_codebase_envelope[of env workspace repo_slug branch path g W] a
  obtain r where r: "res = Inr r" and e: "is_envelope r"
    by (cases res) (simp_all add: returns_envelope_def)
  from e obtain kvs b where k: "r = PDict kvs" and s: "map_of kvs ''success'' = Some (PBool b)"
    by (cases r) (auto simp add: is_envelope_def field_def split: option.splits pyval.splits)
  show ?thesis
  proof (cases b)
    case False
    with a r k s e show ?thesis
      by (simp add: save_codebase_to_file_def returns_envelope_def)
  next
    case True
    with a r k s show ?thesis
      by (simp add: save_codebase_to_file_def returns_envelope_def is_envelope_def field_def
            saving_exception_def
          split: prod.splits sum.splits option.splits)
  qed
qed

lemma get_repositories_envelope:
  assumes "get_repositories env workspace page_size g W = Some res"
  shows "returns_envelope res"
proof -
  obtain x g1 W1 where a: "ensure_authenticated env g W = (x, g1, W1)"
    by (cases "ensure_authenticated env g W")
  show ?thesis
  proof (cases x)
    case (Inl y)
    with a assms ensure_authenticated_stop[of env g W y g1 W1] show ?thesis
      by (auto simp add: get_repositories_def returns_envelope_def)
  next
    case (Inr u)
    let ?loop = "repositories_loop env (auth_headers g1) (repositories_url env workspace)
                   (first_page_params page_size) [] W1"
    from a Inr assms obtain y where l: "?loop = Some y"
      by (cases ?loop) (simp_all add: get_repositories_def)
    obtain z W2 where y: "y = (z, W2)" by (cases y)
    from repositories_loop_envelope[OF l] y have "case z of Inl e \<Rightarrow> True | Inr r \<Rightarrow> is_envelope r"
      by simp
    with a Inr assms l y show ?thesis
      by (cases z) (auto simp add: get_repositories_def returns_envelope_def is_envelope_def field_def)
  qed
qed

lemma get_repositories_returns:
  assumes "pagination_ends n env workspace page_size g W"
  shows "get_repositories env workspace page_size g W \<noteq> None"
proof -
  obtain x g1 W1 where a: "ensure_authenticated env g W = (x, g1, W1)"
    by (cases "ensure_authenticated env g W")
  show ?thesis
  proof (cases x)
    case (Inl y)
    with a show ?thesis by (simp add: get_repositories_def)
  next
    case (Inr u)
    with a assms have "ends_within n env (auth_headers g1) (repositories_url env workspace)
            (first_page_params page_size) [] W1"
      by (simp add: pagination_ends_def)
    from ends_within_returns[OF this] a Inr show ?thesis
      by (auto simp add: get_repositories_def split: sum.splits)
  qed
qed

lemma three_pages_fetch:
  "get_repositories (service three_pages) (PStr ''acme'') 50 logged_in start =
        Some (Inr (PDict [(''success'', PBool True),
                          (''repositories'', PList six_repositories),
                          (''count'', PInt 6)]),
              logged_in,
              ((), [acme_page [] (first_page_params 50), acme_page ''?page=2'' (PDict []),
                    acme_page ''?page=3'' (PDict [])]))"
proof -
  let ?pages = "[[repo_entry ''r1'', repo_entry ''r2''], [repo_entry ''r3'', repo_entry ''r4''],
         [repo_entry ''r5'', repo_entry ''r6'']]"
  have h2: "serves_pages (service three_pages) (auth_headers logged_in)
        (repositories_url (service three_pages) (PStr ''acme'')) (first_page_params 50) start ?pages"
    by (simp add: pages_defs)
  have w: "world_after_pages (service three_pages) (auth_headers logged_in)
        (repositories_url (service three_pages) (PStr ''acme'')) (first_page_params 50) start ?pages
        = ((), [acme_page [] (first_page_params 50), acme_page ''?page=2'' (PDict []),
                    acme_page ''?page=3'' (PDict [])])"
    by (simp add: pages_defs)
  have a: "ensure_authenticated (service three_pages) logged_in start = (Inr (), logged_in, start)"
    by (simp add: ensure_authenticated_def logged_in_def)
  from serves_pages_loop[OF h2, of "[]"] w a show ?thesis
    by (simp add: get_repositories_def six_repositories_def)
qed

text \<open>
  Claim C6, as amended. No exception leaves a tool, and what a tool returns is a dict whose
  \<^verbatim>\<open>success\<close> is a boolean. Six of the seven tools return on every input and every
  behaviour of the remote. \<open>get_repositories\<close> returns such a dict whenever it returns,
  and it returns whenever its loop over the pages ends.
\<close>

theorem tools_return_envelopes:
  "returns_envelope (authenticate_user env email g W)
   \<and> returns_envelope (get_workspaces env g W)
   \<and> returns_envelope (get_repository_codebase env workspace repo_slug branch path g W)
   \<and> returns_envelope (get_specific_file_content env workspace repo_slug file_path branch g W)
   \<and> returns_envelope (get_repository_files_list env workspace repo_slug branch path g W)
   \<and> returns_envelope (save_codebase_to_file env workspace repo_slug filename branch path g W)
   \<and> (\<forall>res. get_repositories env ws page_size g W = Some res \<longrightarrow> returns_envelope res)
   \<and> (pagination_ends n env ws page_size g W \<longrightarrow> get_repositories env ws page_size g W \<noteq> None)"
proof (intro conjI allI impI)
  show "returns_envelope (authenticate_user env email g W)"
    by (rule authenticate_user_envelope)
  show "returns_envelope (get_workspaces env g W)"
    by (rule get_workspaces_envelope)
  show "returns_envelope (get_repository_codebase env workspace repo_slug branch path g W)"
    by (rule get_repository_codebase_envelope)
  show "returns_envelope (get_specific_file_content env workspace repo_slug file_path branch g W)"
    by (rule get_specific_file_content_envelope)
  show "returns_envelope (get_repository_files_list env workspace repo_slug branch path g W)"
    by (rule get_repository_files_list_envelope)
  show "returns_envelope (save_codebase_to_file env workspace repo_slug filename branch path g W)"
    by (rule save_codebase_to_file_envelope)
  show "returns_envelope res" if "get_repositories env ws page_size g W = Some res" for res
    using that by (rule get_repositories_envelope)
  show "get_repositories env ws page_size g W \<noteq> None"
    if "pagination_ends n env ws page_size g W"
    using that by (rule get_repositories_returns)
qed

theorem tools_return_envelopes_witness:
  "pagination_ends 3 (service three_pages) (PStr ''acme'') 50 logged_in start
   \<and> get_repositories (service three_pages) (PStr ''acme'') 50 logged_in start =
        Some (Inr (PDict [(''success'', PBool True),
                          (''repositories'', PList six_repositories),
                          (''count'', PInt 6)]),
              logged_in,
              ((), [acme_page [] (first_page_params 50), acme_page ''?page=2'' (PDict []),
                    acme_page ''?page=3'' (PDict [])]))
   \<and> returns_envelope
        (Inr (PDict [(''success'', PBool True),
                          (''repositories'', PList six_repositories),
                          (''count'', PInt 6)]),
              logged_in,
              ((), [acme_page [] (first_page_params 50), acme_page ''?page=2'' (PDict []),
                    acme_page ''?page=3'' (PDict [])]))
   \<and> get_repositories (service three_pages) (PStr ''acme'') 50 logged_in start \<noteq> None"
proof -
  have h1: "pagination_ends 3 (service three_pages) (PStr ''acme'') 50 logged_in start"
    by (simp add: pagination_ends_def ensure_authenticated_def repositories_page_def pages_defs
          numeral_3_eq_3)
  note t = tools_return_envelopes[where env = "service three_pages" and ws = "PStr ''acme''"
             and page_size = 50 and g = logged_in and W = start and n = 3]
  from t h1 three_pages_fetch show ?thesis by simp
qed

text \<open>
  Claim C6 as it was stated fails for \<open>get_repositories\<close>: against a remote whose every
  page names a next page, the loop never ends and the tool returns nothing.
\<close>

theorem endless_pagination_never_returns:
  "get_repositories (service endless_pages) PNone 50 logged_in start = None"
proof -
  have a: "ensure_authenticated (service endless_pages) logged_in start = (Inr (), logged_in, start)"
    by (simp add: ensure_authenticated_def logged_in_def)
  let ?loop = "repositories_loop (service endless_pages) (auth_headers logged_in)
                 (repositories_url (service endless_pages) PNone) (first_page_params 50) [] start"
  have "?loop = None"
  proof (cases ?loop)
    case None
    then show ?thesis .
  next
    case (Some y)
    from endless_pages_never_returns[OF Some] show ?thesis
      by (simp add: repositories_url_def)
  qed
  with a show ?thesis by (simp add: get_repositories_def)
qed

end
